theory Spec2Isabelle
  imports Main "HOL-Library.AList" "HOL-Library.Word"
begin

section \<open>The response mocker of \<^verbatim>\<open>mocker_firefox_extension/background.js\<close>\<close>

text \<open>
  The extension registers \<^verbatim>\<open>mocker\<close> as a blocking \<^verbatim>\<open>onBeforeRequest\<close> listener.
  For a request whose URL is not listed in \<^verbatim>\<open>NOT_INTERESTING_URLS\<close> it opens a response
  stream filter; the filter's \<^verbatim>\<open>ondata\<close> handler decodes the chunk, tries
  \<^verbatim>\<open>JSON.parse\<close>, lets \<^verbatim>\<open>handle_mocking\<close> mutate the parsed value, writes the
  re-serialised value (or, when anything threw, the decoded text) and disconnects.

  The functions of the source are embedded under their own names. The platform they call
  (\<^verbatim>\<open>TextDecoder\<close>, \<^verbatim>\<open>TextEncoder\<close>, \<^verbatim>\<open>JSON.parse\<close>, \<^verbatim>\<open>JSON.stringify\<close>, property access,
  truthiness, string conversion, the stream filter) is not code of the repository; it is
  modelled here from the ECMAScript, Encoding and WebExtensions descriptions, and each such
  definition says so.
\<close>

subsection \<open>Strings and numbers of the platform\<close>

text \<open>
  A JavaScript string is a sequence of UTF-16 code units; a code unit is a natural number
  below \<open>65536\<close>. \<open>js\<close> turns an ASCII literal into such a string.
\<close>

type_synonym jstring = "nat list"

definition js :: "string \<Rightarrow> jstring" where
  "js s = map of_char s"

text \<open>
  JavaScript numbers are IEEE doubles. Their conversions from and to text are floating
  point algorithms of the platform and are taken as a parameter: \<open>StringToNumber\<close> is
  applied to a JSON number literal only, \<open>NumberToString\<close> is \<^verbatim>\<open>Number::toString\<close>,
  \<open>isFinite\<close> tells the finite numbers (\<^verbatim>\<open>JSON.stringify\<close> prints the others as
  \<^verbatim>\<open>null\<close>), and \<open>isZeroOrNaN\<close> tells the numbers that are falsy.
\<close>

record 'n number_ops =
  StringToNumber :: "jstring \<Rightarrow> 'n"
  NumberToString :: "'n \<Rightarrow> jstring"
  isFinite :: "'n \<Rightarrow> bool"
  isZeroOrNaN :: "'n \<Rightarrow> bool"

text \<open>
  An instance for running examples: the integers, exact on integer literals. A fraction
  or exponent part of a literal is not read by this instance.
\<close>

fun digits_of :: "nat \<Rightarrow> jstring" where
  "digits_of n = (if n < 10 then [48 + n] else digits_of (n div 10) @ [48 + n mod 10])"

declare digits_of.simps [simp del]

definition is_digit :: "nat \<Rightarrow> bool" where
  "is_digit c = (48 \<le> c \<and> c \<le> 57)"

definition decimal_value :: "jstring \<Rightarrow> nat" where
  "decimal_value ds = foldl (\<lambda>acc d. 10 * acc + (d - 48)) 0 ds"

definition int_of_literal :: "jstring \<Rightarrow> int" where
  "int_of_literal lit =
     (case lit of
        [] \<Rightarrow> 0
      | c # cs \<Rightarrow>
          if c = 45 then - int (decimal_value (takeWhile is_digit cs))
          else int (decimal_value (takeWhile is_digit (c # cs))))"

definition literal_of_int :: "int \<Rightarrow> jstring" where
  "literal_of_int i = (if i < 0 then 45 # digits_of (nat (- i)) else digits_of (nat i))"

definition int_ops :: "int number_ops" where
  "int_ops = \<lparr> StringToNumber = int_of_literal, NumberToString = literal_of_int,
               isFinite = (\<lambda>_. True), isZeroOrNaN = (\<lambda>i. i = 0) \<rparr>"

subsection \<open>Structured values\<close>

text \<open>
  What \<^verbatim>\<open>JSON.parse\<close> returns: a tree, without sharing. An object keeps its properties
  in the order in which the platform enumerates them. The value \<^verbatim>\<open>undefined\<close> is never
  part of such a tree; where an expression of the source may yield it, the model has an
  \<open>option\<close> with \<open>None\<close> for \<^verbatim>\<open>undefined\<close>.
\<close>

datatype 'n json =
    JNull
  | JBool bool
  | JNum 'n
  | JStr jstring
  | JArr "'n json list"
  | JObj "(jstring \<times> 'n json) list"

datatype js_error = SyntaxError | TypeError

datatype 'n log_entry = LogStr jstring | LogVal "'n json"

text \<open>
  What a call of a function of the source leaves behind: the lines it gave to
  \<^verbatim>\<open>console.log\<close> (one entry per call, a logged object as it was at the call), the
  value its argument holds afterwards (the source mutates in place), and the exception
  that ended it, if any.
\<close>

record 'n effect =
  logged :: "'n log_entry list"
  mem :: "'n json"
  thrown :: "js_error option"

subsection \<open>The language operations the source uses\<close>

text \<open>\<^verbatim>\<open>ToBoolean\<close>, the test of an \<^verbatim>\<open>if\<close> and of \<^verbatim>\<open>!\<close>.\<close>

fun ToBoolean :: "'n number_ops \<Rightarrow> 'n json option \<Rightarrow> bool" where
  "ToBoolean ops None = False"
| "ToBoolean ops (Some JNull) = False"
| "ToBoolean ops (Some (JBool b)) = b"
| "ToBoolean ops (Some (JNum n)) = (\<not> isZeroOrNaN ops n)"
| "ToBoolean ops (Some (JStr s)) = (s \<noteq> [])"
| "ToBoolean ops (Some (JArr xs)) = True"
| "ToBoolean ops (Some (JObj ps)) = True"

text \<open>
  \<^verbatim>\<open>x?.k\<close>: \<^verbatim>\<open>undefined\<close> when \<open>x\<close> is \<^verbatim>\<open>undefined\<close> or \<^verbatim>\<open>null\<close>, the property
  otherwise. The source reads the names \<^verbatim>\<open>permissions\<close>, \<^verbatim>\<open>attendance\<close>,
  \<^verbatim>\<open>payroll\<close>, \<^verbatim>\<open>policy_key\<close>, \<^verbatim>\<open>authorize\<close>, \<^verbatim>\<open>target_id\<close> and
  \<^verbatim>\<open>target_resource\<close> only: none is a property of a prototype, of a primitive or of an
  array, so only an object has them, as own properties.
\<close>

fun opt_chain :: "'n json option \<Rightarrow> jstring \<Rightarrow> 'n json option" where
  "opt_chain (Some (JObj ps)) k = map_of ps k"
| "opt_chain _ k = None"

text \<open>\<^verbatim>\<open>x.k\<close>: a \<^verbatim>\<open>TypeError\<close> when \<open>x\<close> is \<^verbatim>\<open>null\<close>.\<close>

definition get_prop :: "'n json \<Rightarrow> jstring \<Rightarrow> js_error + 'n json option" where
  "get_prop x k = (if x = JNull then Inl TypeError else Inr (opt_chain (Some x) k))"

text \<open>
  The order in which an object enumerates its properties: array indices (the canonical
  decimal strings of the numbers below \<open>2\<^sup>3\<^sup>2 - 1\<close>) in ascending order, then the other
  names in the order of their creation.
\<close>

definition array_index :: "jstring \<Rightarrow> nat option" where
  "array_index k =
     (if k \<noteq> [] \<and> list_all is_digit k \<and> (k = [48] \<or> hd k \<noteq> 48) \<and> decimal_value k < 4294967295
      then Some (decimal_value k) else None)"

definition index_below :: "nat \<Rightarrow> jstring \<Rightarrow> bool" where
  "index_below i k = (case array_index k of Some j \<Rightarrow> j < i | None \<Rightarrow> False)"

definition create_prop :: "jstring \<Rightarrow> 'v \<Rightarrow> (jstring \<times> 'v) list \<Rightarrow> (jstring \<times> 'v) list" where
  "create_prop k v ps =
     (case array_index k of
        None \<Rightarrow> ps @ [(k, v)]
      | Some i \<Rightarrow> takeWhile (\<lambda>p. index_below i (fst p)) ps @ [(k, v)]
                  @ dropWhile (\<lambda>p. index_below i (fst p)) ps)"

text \<open>
  Storing a property of an object: an existing property keeps its place, a new one is
  created.
\<close>

definition obj_set :: "jstring \<Rightarrow> 'v \<Rightarrow> (jstring \<times> 'v) list \<Rightarrow> (jstring \<times> 'v) list" where
  "obj_set k v ps = (if map_of ps k = None then create_prop k v ps else AList.update k v ps)"

text \<open>
  \<^verbatim>\<open>x.k = v\<close> for an \<open>x\<close> that is not \<^verbatim>\<open>null\<close>. The script has no \<^verbatim>\<open>"use strict"\<close>
  directive, so the assignment to a property of a primitive is ignored. On an array it
  creates a named property, which is no element: \<^verbatim>\<open>JSON.stringify\<close> does not print it
  and the source never reads it, so the model leaves the array as it is.
\<close>

fun set_prop :: "'n json \<Rightarrow> jstring \<Rightarrow> 'n json \<Rightarrow> 'n json" where
  "set_prop (JObj ps) k v = JObj (obj_set k v ps)"
| "set_prop x k v = x"

text \<open>
  The source mutates through a path, as in
  \<^verbatim>\<open>company.permissions.attendance.approve = true\<close>: the objects on the path stay where
  they are and the innermost one changes. \<open>modify_prop x k f\<close> is \<open>x\<close> after the value of
  its property \<open>k\<close> was mutated by \<open>f\<close>.
\<close>

fun modify_prop :: "'n json \<Rightarrow> jstring \<Rightarrow> ('n json \<Rightarrow> 'n json) \<Rightarrow> 'n json" where
  "modify_prop (JObj ps) k f =
     (case map_of ps k of None \<Rightarrow> JObj ps | Some x \<Rightarrow> JObj (AList.update k (f x) ps))"
| "modify_prop x k f = x"

text \<open>
  \<^verbatim>\<open>ToString\<close>, as a template literal applies it. An object answers
  \<^verbatim>\<open>[object Object]\<close> through \<^verbatim>\<open>Object.prototype.toString\<close>, unless it has an own
  property \<^verbatim>\<open>toString\<close>: a parsed value is never callable, \<^verbatim>\<open>valueOf\<close> returns no
  primitive either, and the conversion throws a \<^verbatim>\<open>TypeError\<close>. An array joins the
  strings of its elements with commas, \<^verbatim>\<open>null\<close> giving the empty string.
\<close>

fun join_strings :: "(js_error + jstring) list \<Rightarrow> js_error + jstring" where
  "join_strings [] = Inr []"
| "join_strings [x] = x"
| "join_strings (x # y # ys) =
     (case x of
        Inl e \<Rightarrow> Inl e
      | Inr a \<Rightarrow> (case join_strings (y # ys) of Inl e \<Rightarrow> Inl e | Inr b \<Rightarrow> Inr (a @ 44 # b)))"

fun ToString_value :: "'n number_ops \<Rightarrow> 'n json \<Rightarrow> js_error + jstring" where
  "ToString_value ops JNull = Inr (js ''null'')"
| "ToString_value ops (JBool b) = Inr (if b then js ''true'' else js ''false'')"
| "ToString_value ops (JNum n) = Inr (NumberToString ops n)"
| "ToString_value ops (JStr s) = Inr s"
| "ToString_value ops (JObj ps) =
     (if map_of ps (js ''toString'') = None then Inr (js ''[object Object]'') else Inl TypeError)"
| "ToString_value ops (JArr xs) =
     join_strings (map (\<lambda>x. if x = JNull then Inr [] else ToString_value ops x) xs)"

definition ToString :: "'n number_ops \<Rightarrow> 'n json option \<Rightarrow> js_error + jstring" where
  "ToString ops x = (case x of None \<Rightarrow> Inr (js ''undefined'') | Some v \<Rightarrow> ToString_value ops v)"

subsection \<open>Configuration\<close>

definition companies_url :: jstring where
  "companies_url = js ''https://api.factorialhr.com/companies''"

definition authorize_policies_url :: jstring where
  "authorize_policies_url = js ''https://api.factorialhr.com/permissions/permissions/authorize_policies''"

definition INTERESTING_URLS :: "jstring list" where
  "INTERESTING_URLS =
     [js ''https://api.factorialhr.com/companies'',
      js ''https://api.factorialhr.com/permissions/permissions/authorize_policies'',
      js ''https://api.factorialhr.com/posts/groups'']"

definition NOT_INTERESTING_URLS :: "jstring list" where
  "NOT_INTERESTING_URLS =
     [js ''https://api.factorialhr.com/ats/companies'',
      js ''https://api.factorialhr.com/teams'',
      js ''https://api.factorialhr.com/company_holidays'',
      js ''https://api.factorialhr.com/memberships'',
      js ''https://api.factorialhr.com/visits'',
      js ''https://api.factorialhr.com/accesses/become'',
      js ''https://api.factorialhr.com/api/rest/marketplace/user_installation'',
      js ''https://api.factorialhr.com/job_catalog/salary_ranges'',
      js ''https://api.factorialhr.com/job_catalog/roles'',
      js ''https://api.factorialhr.com/job_catalog/levels'',
      js ''https://api.factorialhr.com/genders'',
      js ''https://api.factorialhr.com/legal_genders'',
      js ''https://api.factorialhr.com/legal_entities'',
      js ''https://api.factorialhr.com/locations'',
      js ''https://api.factorialhr.com/billing/subscriptions'',
      js ''https://api.factorialhr.com/policies'']"

definition MOCK_POLICIES :: "jstring list" where
  "MOCK_POLICIES =
     [js ''contracts.create_additional_compensation_type'',
      js ''contracts.delete_contracts'',
      js ''contracts.edit'',
      js ''contracts.promote'',
      js ''contracts.read'',
      js ''contracts.see_end_date'',
      js ''employee.create'',
      js ''employee.invite'',
      js ''employee.become'',
      js ''employee_profile.company_identifier.edit'',
      js ''employee_profile.company_identifier.see'',
      js ''finance.cost_center_memberships.see'',
      js ''goals.read'',
      js ''leaves.download'',
      js ''payroll.manage_payroll'',
      js ''planning_versions.edit'',
      js ''planning_versions.read'',
      js ''shift_management.create_shifts'',
      js ''teams.manage'']"

subsection \<open>The transforms\<close>

text \<open>
  The body of the loop of \<^verbatim>\<open>mock_companies\<close> for one element. Reading
  \<^verbatim>\<open>company.permissions\<close> throws when the element is \<^verbatim>\<open>null\<close>.
\<close>

definition mock_company :: "'n number_ops \<Rightarrow> 'n json \<Rightarrow> js_error + 'n json" where
  "mock_company ops company =
     (case get_prop company (js ''permissions'') of
        Inl e \<Rightarrow> Inl e
      | Inr p \<Rightarrow>
          let company1 =
                (if ToBoolean ops (opt_chain p (js ''attendance''))
                 then modify_prop company (js ''permissions'')
                        (\<lambda>q. modify_prop q (js ''attendance'')
                           (\<lambda>a. set_prop a (js ''approve'') (JBool True)))
                 else company)
          in (case get_prop company1 (js ''permissions'') of
                Inl e \<Rightarrow> Inl e
              | Inr p1 \<Rightarrow>
                  Inr (if ToBoolean ops (opt_chain p1 (js ''payroll''))
                       then modify_prop company1 (js ''permissions'')
                              (\<lambda>q. modify_prop q (js ''payroll'')
                                 (\<lambda>a. set_prop a (js ''edit_supplements'') (JBool True)))
                       else company1)))"

text \<open>
  The \<^verbatim>\<open>for ... of\<close> loop: the elements in order; an exception leaves the elements
  after it as they were and ends the loop.
\<close>

fun companies_loop :: "'n number_ops \<Rightarrow> 'n json list \<Rightarrow> 'n json list \<times> js_error option" where
  "companies_loop ops [] = ([], None)"
| "companies_loop ops (c # cs) =
     (case mock_company ops c of
        Inl e \<Rightarrow> (c # cs, Some e)
      | Inr c' \<Rightarrow> (let (cs', r) = companies_loop ops cs in (c' # cs', r)))"

definition mock_companies :: "'n number_ops \<Rightarrow> 'n json \<Rightarrow> 'n effect" where
  "mock_companies ops response =
     (let before = [LogStr (js ''Companies original response:''), LogVal response]
      in case response of
           JArr (c # cs) \<Rightarrow>
             (let (cs', r) = companies_loop ops (c # cs)
              in case r of
                   Some e \<Rightarrow> \<lparr> logged = before, mem = JArr cs', thrown = Some e \<rparr>
                 | None \<Rightarrow>
                     \<lparr> logged = before @ [LogStr (js ''Companies mocked response:''), LogVal (JArr cs')],
                       mem = JArr cs', thrown = None \<rparr>)
         | _ \<Rightarrow>
             \<lparr> logged = before @ [LogStr (js ''Companies mocked response:''), LogVal response],
               mem = response, thrown = None \<rparr>)"

text \<open>
  The template literal that \<^verbatim>\<open>mock_authorize_policies\<close> logs for a policy: its parts
  are converted from left to right.
\<close>

definition policy_line :: "'n number_ops \<Rightarrow> 'n json \<Rightarrow> jstring \<Rightarrow> js_error + jstring" where
  "policy_line ops policy mocked =
     (case ToString ops (opt_chain (Some policy) (js ''policy_key'')) of
        Inl e \<Rightarrow> Inl e
      | Inr a \<Rightarrow>
     (case ToString ops (opt_chain (Some policy) (js ''authorize'')) of
        Inl e \<Rightarrow> Inl e
      | Inr b \<Rightarrow>
     (case ToString ops (opt_chain (Some policy) (js ''target_id'')) of
        Inl e \<Rightarrow> Inl e
      | Inr c \<Rightarrow>
     (case ToString ops (opt_chain (Some policy) (js ''target_resource'')) of
        Inl e \<Rightarrow> Inl e
      | Inr d \<Rightarrow> Inr (a @ js '', '' @ b @ js '', '' @ c @ d @ js '' '' @ mocked)))))"

text \<open>\<^verbatim>\<open>MOCK_POLICIES.includes(x)\<close>: only a string can be equal to a string.\<close>

fun includes_policy :: "'n json option \<Rightarrow> bool" where
  "includes_policy (Some (JStr s)) = (s \<in> set MOCK_POLICIES)"
| "includes_policy _ = False"

text \<open>
  The body of the loop of \<^verbatim>\<open>mock_authorize_policies\<close> for one element: the element
  afterwards, what was logged, and the exception if one was thrown. The assignment comes
  before the template literal, so it stays when the literal throws.
\<close>

definition mock_policy :: "'n number_ops \<Rightarrow> 'n json \<Rightarrow> 'n json \<times> 'n log_entry list \<times> js_error option" where
  "mock_policy ops policy =
     (case get_prop policy (js ''policy_key'') of
        Inl e \<Rightarrow> (policy, [], Some e)
      | Inr key \<Rightarrow>
          let (policy1, mocked) =
                (if includes_policy key
                 then (if \<not> ToBoolean ops (opt_chain (Some policy) (js ''authorize''))
                       then (set_prop policy (js ''authorize'') (JBool True), js '' (mocked)'')
                       else (policy, []))
                 else (policy, []))
          in (case policy_line ops policy1 mocked of
                Inl e \<Rightarrow> (policy1, [], Some e)
              | Inr line \<Rightarrow> (policy1, [LogStr line], None)))"

fun policies_loop :: "'n number_ops \<Rightarrow> 'n json list \<Rightarrow> 'n json list \<times> 'n log_entry list \<times> js_error option" where
  "policies_loop ops [] = ([], [], None)"
| "policies_loop ops (p # ps) =
     (case mock_policy ops p of
        (p', l, Some e) \<Rightarrow> (p' # ps, l, Some e)
      | (p', l, None) \<Rightarrow> (let (ps', l', r) = policies_loop ops ps in (p' # ps', l @ l', r)))"

definition mock_authorize_policies :: "'n number_ops \<Rightarrow> 'n json \<Rightarrow> 'n effect" where
  "mock_authorize_policies ops response =
     (case response of
        JArr (p # ps) \<Rightarrow>
          (let (ps', l, r) = policies_loop ops (p # ps)
           in \<lparr> logged = l, mem = JArr ps', thrown = r \<rparr>)
      | _ \<Rightarrow> \<lparr> logged = [], mem = response, thrown = None \<rparr>)"

text \<open>The \<^verbatim>\<open>switch\<close> of \<^verbatim>\<open>handle_mocking\<close>: strict equality of strings.\<close>

definition handle_mocking :: "'n number_ops \<Rightarrow> jstring \<Rightarrow> 'n json \<Rightarrow> 'n effect" where
  "handle_mocking ops url response =
     (if url = js ''https://api.factorialhr.com/companies'' then mock_companies ops response
      else if url = js ''https://api.factorialhr.com/permissions/permissions/authorize_policies''
      then mock_authorize_policies ops response
      else \<lparr> logged = [LogStr (js ''No mocker for: '' @ url), LogVal response],
             mem = response, thrown = None \<rparr>)"

subsection \<open>The platform: \<^verbatim>\<open>TextDecoder\<close> and \<^verbatim>\<open>TextEncoder\<close>\<close>

text \<open>
  Modelled from the Encoding standard, which the source calls through
  \<^verbatim>\<open>new TextDecoder("utf-8")\<close> and \<^verbatim>\<open>new TextEncoder()\<close>. The decoder keeps the code
  point it is assembling, the number of continuation bytes it still needs, and the range
  allowed for the next byte. A byte that cannot continue a sequence gives U+FFFD and is
  read again as the start of a sequence.
\<close>

type_synonym byte = "8 word"

record utf8_decoder =
  bytes_needed :: nat
  code_point :: nat
  lower_boundary :: nat
  upper_boundary :: nat

definition utf8_initial :: utf8_decoder where
  "utf8_initial = \<lparr> bytes_needed = 0, code_point = 0, lower_boundary = 0x80, upper_boundary = 0xBF \<rparr>"

definition utf8_lead :: "nat \<Rightarrow> nat list \<times> utf8_decoder" where
  "utf8_lead b =
     (if b \<le> 0x7F then ([b], utf8_initial)
      else if 0xC2 \<le> b \<and> b \<le> 0xDF then
        ([], \<lparr> bytes_needed = 1, code_point = b mod 32, lower_boundary = 0x80, upper_boundary = 0xBF \<rparr>)
      else if 0xE0 \<le> b \<and> b \<le> 0xEF then
        ([], \<lparr> bytes_needed = 2, code_point = b mod 16,
               lower_boundary = (if b = 0xE0 then 0xA0 else 0x80),
               upper_boundary = (if b = 0xED then 0x9F else 0xBF) \<rparr>)
      else if 0xF0 \<le> b \<and> b \<le> 0xF4 then
        ([], \<lparr> bytes_needed = 3, code_point = b mod 8,
               lower_boundary = (if b = 0xF0 then 0x90 else 0x80),
               upper_boundary = (if b = 0xF4 then 0x8F else 0xBF) \<rparr>)
      else ([0xFFFD], utf8_initial))"

definition utf8_step :: "utf8_decoder \<Rightarrow> nat \<Rightarrow> nat list \<times> utf8_decoder" where
  "utf8_step d b =
     (if bytes_needed d = 0 then utf8_lead b
      else if b < lower_boundary d \<or> upper_boundary d < b then
        (let (out, d') = utf8_lead b in (0xFFFD # out, d'))
      else
        (let cp = code_point d * 64 + b mod 64
         in if bytes_needed d = 1 then ([cp], utf8_initial)
            else ([], \<lparr> bytes_needed = bytes_needed d - 1, code_point = cp,
                        lower_boundary = 0x80, upper_boundary = 0xBF \<rparr>)))"

fun utf8_run :: "utf8_decoder \<Rightarrow> nat list \<Rightarrow> nat list \<times> utf8_decoder" where
  "utf8_run d [] = ([], d)"
| "utf8_run d (b # bs) =
     (let (out1, d1) = utf8_step d b; (out2, d2) = utf8_run d1 bs in (out1 @ out2, d2))"

definition utf16_units :: "nat \<Rightarrow> jstring" where
  "utf16_units cp =
     (if cp < 0x10000 then [cp]
      else [0xD800 + (cp - 0x10000) div 0x400, 0xDC00 + (cp - 0x10000) mod 0x400])"

text \<open>
  A \<^verbatim>\<open>TextDecoder\<close> object: the state of its UTF-8 decoder and its \<^verbatim>\<open>BOM seen\<close> flag.
  \<^verbatim>\<open>decode(data, {stream: true})\<close> runs the decoder over the bytes and keeps an unfinished
  sequence for the next call instead of flushing it. The first code point that the object
  ever emits is dropped when it is U+FEFF.
\<close>

record text_decoder =
  utf8 :: utf8_decoder
  BOM_seen :: bool

definition new_TextDecoder :: text_decoder where
  "new_TextDecoder = \<lparr> utf8 = utf8_initial, BOM_seen = False \<rparr>"

definition TextDecoder_decode_stream :: "text_decoder \<Rightarrow> byte list \<Rightarrow> jstring \<times> text_decoder" where
  "TextDecoder_decode_stream td data =
     (let (cps, d') = utf8_run (utf8 td) (map unat data);
          cps' = (if BOM_seen td then cps
                  else (case cps of [] \<Rightarrow> [] | c # cs \<Rightarrow> if c = 0xFEFF then cs else c # cs))
      in (concat (map utf16_units cps'),
          \<lparr> utf8 = d', BOM_seen = (BOM_seen td \<or> cps \<noteq> []) \<rparr>))"

definition is_lead_surrogate :: "nat \<Rightarrow> bool" where
  "is_lead_surrogate u = (0xD800 \<le> u \<and> u \<le> 0xDBFF)"

definition is_trail_surrogate :: "nat \<Rightarrow> bool" where
  "is_trail_surrogate u = (0xDC00 \<le> u \<and> u \<le> 0xDFFF)"

definition is_surrogate :: "nat \<Rightarrow> bool" where
  "is_surrogate u = (0xD800 \<le> u \<and> u \<le> 0xDFFF)"

text \<open>
  \<^verbatim>\<open>TextEncoder.encode\<close>: the string is read as scalar values (a surrogate pair is one,
  a surrogate without its partner is replaced by U+FFFD), each written in UTF-8.
\<close>

fun scalar_values :: "jstring \<Rightarrow> nat list" where
  "scalar_values [] = []"
| "scalar_values [u] = [if is_surrogate u then 0xFFFD else u]"
| "scalar_values (u # v # us) =
     (if is_lead_surrogate u \<and> is_trail_surrogate v
      then (0x10000 + (u - 0xD800) * 0x400 + (v - 0xDC00)) # scalar_values us
      else (if is_surrogate u then 0xFFFD else u) # scalar_values (v # us))"

definition utf8_bytes :: "nat \<Rightarrow> nat list" where
  "utf8_bytes cp =
     (if cp < 0x80 then [cp]
      else if cp < 0x800 then [0xC0 + cp div 64, 0x80 + cp mod 64]
      else if cp < 0x10000 then [0xE0 + cp div 4096, 0x80 + (cp div 64) mod 64, 0x80 + cp mod 64]
      else [0xF0 + cp div 262144, 0x80 + (cp div 4096) mod 64, 0x80 + (cp div 64) mod 64,
            0x80 + cp mod 64])"

definition TextEncoder_encode :: "jstring \<Rightarrow> byte list" where
  "TextEncoder_encode s = map of_nat (concat (map utf8_bytes (scalar_values s)))"

subsection \<open>The platform: \<^verbatim>\<open>JSON.stringify\<close>\<close>

text \<open>
  Modelled from ECMAScript's \<^verbatim>\<open>JSON.stringify\<close> with one argument. A string is quoted
  code point by code point: the two-character escapes, \<^verbatim>\<open>\uXXXX\<close> in lower case for the
  other control characters and for a surrogate without its partner, the character itself
  otherwise.
\<close>

definition hex_digit :: "nat \<Rightarrow> nat" where
  "hex_digit d = (if d < 10 then 48 + d else 87 + d)"

definition unicode_escape :: "nat \<Rightarrow> jstring" where
  "unicode_escape u =
     [92, 117, hex_digit (u div 4096), hex_digit ((u div 256) mod 16),
      hex_digit ((u div 16) mod 16), hex_digit (u mod 16)]"

definition quote_unit :: "nat \<Rightarrow> jstring" where
  "quote_unit u =
     (if u = 8 then [92, 98]
      else if u = 9 then [92, 116]
      else if u = 10 then [92, 110]
      else if u = 12 then [92, 102]
      else if u = 13 then [92, 114]
      else if u = 34 then [92, 34]
      else if u = 92 then [92, 92]
      else if u < 32 \<or> is_surrogate u then unicode_escape u
      else [u])"

fun quote_units :: "jstring \<Rightarrow> jstring" where
  "quote_units [] = []"
| "quote_units [u] = quote_unit u"
| "quote_units (u # v # us) =
     (if is_lead_surrogate u \<and> is_trail_surrogate v then u # v # quote_units us
      else quote_unit u @ quote_units (v # us))"

definition QuoteJSONString :: "jstring \<Rightarrow> jstring" where
  "QuoteJSONString s = 34 # quote_units s @ [34]"

fun join_commas :: "jstring list \<Rightarrow> jstring" where
  "join_commas [] = []"
| "join_commas [x] = x"
| "join_commas (x # y # ys) = x @ 44 # join_commas (y # ys)"

fun JSON_stringify :: "'n number_ops \<Rightarrow> 'n json \<Rightarrow> jstring" where
  "JSON_stringify ops JNull = js ''null''"
| "JSON_stringify ops (JBool b) = (if b then js ''true'' else js ''false'')"
| "JSON_stringify ops (JNum n) = (if isFinite ops n then NumberToString ops n else js ''null'')"
| "JSON_stringify ops (JStr s) = QuoteJSONString s"
| "JSON_stringify ops (JArr xs) = 91 # join_commas (map (JSON_stringify ops) xs) @ [93]"
| "JSON_stringify ops (JObj ps) =
     123 # join_commas (map (\<lambda>(k, v). QuoteJSONString k @ 58 # JSON_stringify ops v) ps) @ [125]"

subsection \<open>The platform: \<^verbatim>\<open>JSON.parse\<close>\<close>

text \<open>
  Modelled from ECMAScript's \<^verbatim>\<open>JSON.parse\<close> with one argument: the JSON grammar, read
  as tokens separated by optional white space (tab, line feed, carriage return, space),
  then a pushdown recogniser that builds the value. A text outside the grammar is a
  \<^verbatim>\<open>SyntaxError\<close>.
\<close>

datatype 'n token =
    TLBracket | TRBracket | TLBrace | TRBrace | TComma | TColon
  | TString jstring | TNumber 'n | TTrue | TFalse | TNull

definition is_ws :: "nat \<Rightarrow> bool" where
  "is_ws c = (c = 9 \<or> c = 10 \<or> c = 13 \<or> c = 32)"

definition hex_value :: "nat \<Rightarrow> nat option" where
  "hex_value c =
     (if 48 \<le> c \<and> c \<le> 57 then Some (c - 48)
      else if 97 \<le> c \<and> c \<le> 102 then Some (c - 87)
      else if 65 \<le> c \<and> c \<le> 70 then Some (c - 55)
      else None)"

definition hex4_value :: "nat \<Rightarrow> nat \<Rightarrow> nat \<Rightarrow> nat \<Rightarrow> nat option" where
  "hex4_value a b c d =
     (case (hex_value a, hex_value b, hex_value c, hex_value d) of
        (Some x, Some y, Some z, Some w) \<Rightarrow> Some (x * 4096 + y * 256 + z * 16 + w)
      | _ \<Rightarrow> None)"

definition simple_escape :: "nat \<Rightarrow> nat option" where
  "simple_escape e =
     (if e = 34 then Some 34
      else if e = 92 then Some 92
      else if e = 47 then Some 47
      else if e = 98 then Some 8
      else if e = 102 then Some 12
      else if e = 110 then Some 10
      else if e = 114 then Some 13
      else if e = 116 then Some 9
      else None)"

text \<open>
  The characters of a string literal after its opening quote: the string it denotes and
  the text after its closing quote. A control character may not stand unescaped.
\<close>

fun scan_string :: "jstring \<Rightarrow> (jstring \<times> jstring) option" where
  "scan_string [] = None"
| "scan_string (c # cs) =
     (if c = 34 then Some ([], cs)
      else if c = 92 then
        (case cs of
           [] \<Rightarrow> None
         | e # cs1 \<Rightarrow>
             if e = 117 then
               (case cs1 of
                  a # b # c' # d # cs2 \<Rightarrow>
                    (case hex4_value a b c' d of
                       None \<Rightarrow> None
                     | Some u \<Rightarrow> map_option (\<lambda>(s, r). (u # s, r)) (scan_string cs2))
                | _ \<Rightarrow> None)
             else
               (case simple_escape e of
                  None \<Rightarrow> None
                | Some u \<Rightarrow> map_option (\<lambda>(s, r). (u # s, r)) (scan_string cs1)))
      else if c < 32 then None
      else map_option (\<lambda>(s, r). (c # s, r)) (scan_string cs))"

text \<open>
  A number literal: an optional minus, an integer part without a leading zero, an
  optional fraction, an optional exponent. Each scanner returns what follows its part.
\<close>

definition strip_sign :: "jstring \<Rightarrow> jstring" where
  "strip_sign s = (case s of [] \<Rightarrow> [] | c # r \<Rightarrow> if c = 45 then r else c # r)"

definition strip_int :: "jstring \<Rightarrow> jstring option" where
  "strip_int s =
     (case s of
        [] \<Rightarrow> None
      | d # r \<Rightarrow> if d = 48 then Some r
                 else if is_digit d then Some (dropWhile is_digit r)
                 else None)"

definition strip_digits1 :: "jstring \<Rightarrow> jstring option" where
  "strip_digits1 s = (if takeWhile is_digit s = [] then None else Some (dropWhile is_digit s))"

definition strip_frac :: "jstring \<Rightarrow> jstring option" where
  "strip_frac s = (case s of [] \<Rightarrow> Some [] | c # r \<Rightarrow> if c = 46 then strip_digits1 r else Some (c # r))"

definition strip_exp :: "jstring \<Rightarrow> jstring option" where
  "strip_exp s =
     (case s of
        [] \<Rightarrow> Some []
      | c # r \<Rightarrow>
          if c = 101 \<or> c = 69 then
            (case r of
               [] \<Rightarrow> None
             | g # r' \<Rightarrow> if g = 43 \<or> g = 45 then strip_digits1 r' else strip_digits1 (g # r'))
          else Some (c # r))"

definition JSON_number :: "jstring \<Rightarrow> bool" where
  "JSON_number lit =
     (case strip_int (strip_sign lit) of
        None \<Rightarrow> False
      | Some r1 \<Rightarrow>
          (case strip_frac r1 of
             None \<Rightarrow> False
           | Some r2 \<Rightarrow> strip_exp r2 = Some []))"

text \<open>
  A number token starts with a minus or a digit and ends before the first character that
  no number literal contains; the characters between must form a number literal. (A text
  of the grammar has white space or punctuation after a number.)
\<close>

definition is_number_char :: "nat \<Rightarrow> bool" where
  "is_number_char c = (is_digit c \<or> c = 43 \<or> c = 45 \<or> c = 46 \<or> c = 101 \<or> c = 69)"

lemma scan_string_shorter: "scan_string cs = Some (s, r) \<Longrightarrow> length r < length cs"
proof (induction "length cs" arbitrary: cs s r rule: less_induct)
  case less
  have step: "\<And>t s'. scan_string t = Some (s', r) \<Longrightarrow> length t < length cs \<Longrightarrow> length r < length t"
    using less.hyps by blast
  show ?case
  proof (cases cs)
    case Nil
    with less.prems show ?thesis by simp
  next
    case (Cons c cs0)
    from less.prems Cons show ?thesis
      by (auto split: if_splits list.splits option.splits dest!: step)
  qed
qed

function lex :: "'n number_ops \<Rightarrow> jstring \<Rightarrow> 'n token list option" where
  "lex ops [] = Some []"
| "lex ops (c # cs) =
     (if is_ws c then lex ops cs
      else if c = 91 then map_option (Cons TLBracket) (lex ops cs)
      else if c = 93 then map_option (Cons TRBracket) (lex ops cs)
      else if c = 123 then map_option (Cons TLBrace) (lex ops cs)
      else if c = 125 then map_option (Cons TRBrace) (lex ops cs)
      else if c = 44 then map_option (Cons TComma) (lex ops cs)
      else if c = 58 then map_option (Cons TColon) (lex ops cs)
      else if c = 34 then
        (case scan_string cs of
           None \<Rightarrow> None
         | Some (s, rest) \<Rightarrow> map_option (Cons (TString s)) (lex ops rest))
      else if c = 45 \<or> is_digit c then
        (if JSON_number (c # takeWhile is_number_char cs)
         then map_option (Cons (TNumber (StringToNumber ops (c # takeWhile is_number_char cs))))
                (lex ops (dropWhile is_number_char cs))
         else None)
      else if c = 116 \<and> take 3 cs = js ''rue'' then map_option (Cons TTrue) (lex ops (drop 3 cs))
      else if c = 102 \<and> take 4 cs = js ''alse'' then map_option (Cons TFalse) (lex ops (drop 4 cs))
      else if c = 110 \<and> take 3 cs = js ''ull'' then map_option (Cons TNull) (lex ops (drop 3 cs))
      else None)"
  by pat_completeness auto
termination
proof (relation "measure (\<lambda>(ops, s). length s)")
  show "wf (measure (\<lambda>(ops, s). length s))" by simp
qed (auto dest: scan_string_shorter intro: le_imp_less_Suc length_dropWhile_le)

text \<open>
  The recogniser. A frame is a container whose next element is being read; the state says
  what may come next. A completed value goes into the innermost frame, or is the result.
  A property of an object is stored as the platform stores it (\<open>obj_set\<close>), so a repeated
  name overwrites and keeps its first place.
\<close>

datatype 'n frame =
    FArr "'n json list"
  | FObj "(jstring \<times> 'n json) list" jstring

datatype 'n pstate =
    PValue "'n frame list"
  | PArrStart "'n frame list"
  | PArrNext "'n json list" "'n frame list"
  | PObjStart "'n frame list"
  | PObjKey "(jstring \<times> 'n json) list" "'n frame list"
  | PObjColon "(jstring \<times> 'n json) list" jstring "'n frame list"
  | PObjNext "(jstring \<times> 'n json) list" "'n frame list"
  | PDone "'n json"

fun complete :: "'n json \<Rightarrow> 'n frame list \<Rightarrow> 'n pstate" where
  "complete v [] = PDone v"
| "complete v (FArr es # st) = PArrNext (v # es) st"
| "complete v (FObj ps k # st) = PObjNext (obj_set k v ps) st"

fun start_value :: "'n frame list \<Rightarrow> 'n token \<Rightarrow> 'n pstate option" where
  "start_value st TLBracket = Some (PArrStart st)"
| "start_value st TLBrace = Some (PObjStart st)"
| "start_value st (TString s) = Some (complete (JStr s) st)"
| "start_value st (TNumber n) = Some (complete (JNum n) st)"
| "start_value st TTrue = Some (complete (JBool True) st)"
| "start_value st TFalse = Some (complete (JBool False) st)"
| "start_value st TNull = Some (complete JNull st)"
| "start_value st _ = None"

fun pstep :: "'n pstate \<Rightarrow> 'n token \<Rightarrow> 'n pstate option" where
  "pstep (PValue st) t = start_value st t"
| "pstep (PArrStart st) t =
     (if t = TRBracket then Some (complete (JArr []) st) else start_value (FArr [] # st) t)"
| "pstep (PArrNext es st) t =
     (if t = TComma then Some (PValue (FArr es # st))
      else if t = TRBracket then Some (complete (JArr (rev es)) st)
      else None)"
| "pstep (PObjStart st) t =
     (case t of
        TRBrace \<Rightarrow> Some (complete (JObj []) st)
      | TString k \<Rightarrow> Some (PObjColon [] k st)
      | _ \<Rightarrow> None)"
| "pstep (PObjKey ps st) t = (case t of TString k \<Rightarrow> Some (PObjColon ps k st) | _ \<Rightarrow> None)"
| "pstep (PObjColon ps k st) t = (if t = TColon then Some (PValue (FObj ps k # st)) else None)"
| "pstep (PObjNext ps st) t =
     (if t = TComma then Some (PObjKey ps st)
      else if t = TRBrace then Some (complete (JObj ps) st)
      else None)"
| "pstep (PDone v) t = None"

fun prun :: "'n pstate \<Rightarrow> 'n token list \<Rightarrow> 'n pstate option" where
  "prun p [] = Some p"
| "prun p (t # ts) = (case pstep p t of None \<Rightarrow> None | Some p' \<Rightarrow> prun p' ts)"

definition JSON_parse :: "'n number_ops \<Rightarrow> jstring \<Rightarrow> js_error + 'n json" where
  "JSON_parse ops text =
     (case lex ops text of
        None \<Rightarrow> Inl SyntaxError
      | Some ts \<Rightarrow>
          (case prun (PValue []) ts of
             Some (PDone v) \<Rightarrow> Inr v
           | _ \<Rightarrow> Inl SyntaxError))"

subsection \<open>The stream filter and \<^verbatim>\<open>mocker\<close>\<close>

text \<open>
  What a request leaves behind, in order: the calls of the platform and of the dispatcher
  that \<^verbatim>\<open>mocker\<close> and its \<^verbatim>\<open>ondata\<close> handler make, with the lines given to
  \<^verbatim>\<open>console.log\<close> and the bytes given to \<^verbatim>\<open>filter.write\<close>.
\<close>

datatype 'n event =
    FilterOpen nat
  | CallDecode
  | CallParse
  | CallHandleMocking
  | ConsoleLog "'n log_entry"
  | FilterWrite "byte list"
  | FilterDisconnect

record request_details =
  requestId :: nat
  url :: jstring

text \<open>
  The filter that \<^verbatim>\<open>browser.webRequest.filterResponseData\<close> returns, with the decoder
  that the handler closes over: it receives \<^verbatim>\<open>ondata\<close> events while it is connected.
\<close>

record 'n stream_filter =
  decoder :: text_decoder
  connected :: bool
  trace :: "'n event list"

text \<open>
  The handler \<^verbatim>\<open>filter.ondata\<close>. The \<^verbatim>\<open>try\<close> block covers \<^verbatim>\<open>JSON.parse\<close>,
  \<^verbatim>\<open>handle_mocking\<close> and the write of the re-serialised value; the \<^verbatim>\<open>catch\<close> block
  writes the decoded text. \<^verbatim>\<open>filter.disconnect()\<close> follows in both cases.
\<close>

definition ondata :: "'n number_ops \<Rightarrow> request_details \<Rightarrow> 'n stream_filter \<Rightarrow> byte list \<Rightarrow> 'n stream_filter" where
  "ondata ops requestDetails fltr data =
     (let (str, decoder') = TextDecoder_decode_stream (decoder fltr) data;
          tried =
            (case JSON_parse ops str of
               Inl e \<Rightarrow> [CallParse, FilterWrite (TextEncoder_encode str)]
             | Inr response \<Rightarrow>
                 (let eff = handle_mocking ops (url requestDetails) response
                  in [CallParse, CallHandleMocking] @ map ConsoleLog (logged eff) @
                     (case thrown eff of
                        Some e \<Rightarrow> [FilterWrite (TextEncoder_encode str)]
                      | None \<Rightarrow> [FilterWrite (TextEncoder_encode (JSON_stringify ops (mem eff)))])))
      in fltr \<lparr> decoder := decoder', connected := False,
                  trace := trace fltr @ [CallDecode] @ tried @ [FilterDisconnect] \<rparr>)"

text \<open>
  \<^verbatim>\<open>mocker\<close>: for a URL that \<^verbatim>\<open>NOT_INTERESTING_URLS\<close> does not include, the filter it
  opens, with \<open>ondata\<close> as its handler; otherwise nothing.
\<close>

definition mocker :: "request_details \<Rightarrow> 'n stream_filter option" where
  "mocker requestDetails =
     (if url requestDetails \<notin> set NOT_INTERESTING_URLS
      then Some \<lparr> decoder = new_TextDecoder, connected = True,
                  trace = [FilterOpen (requestId requestDetails)] \<rparr>
      else None)"

text \<open>
  The host of the filter is the browser, which is not part of the repository; it is
  modelled from the documentation of the stream filter and from the spec's description of
  it. It gives the chunks of the response body to the handler in their order for as long
  as the filter is connected. The spec (sections 6 and 9) has a disconnected filter
  deliver no further data, so that the body is cut after the chunk that was handled; the
  WebExtensions documentation has the browser pass the rest of the body on as it is. Both
  readings are kept, as a parameter.
\<close>

datatype disconnect_semantics = RestPassesThrough | RestDropped

fun pump :: "'n number_ops \<Rightarrow> request_details \<Rightarrow> 'n stream_filter \<Rightarrow> byte list list
    \<Rightarrow> 'n stream_filter \<times> byte list list" where
  "pump ops requestDetails fltr [] = (fltr, [])"
| "pump ops requestDetails fltr (c # cs) =
     (if connected fltr then pump ops requestDetails (ondata ops requestDetails fltr c) cs
      else (fltr, c # cs))"

fun written :: "'n event list \<Rightarrow> byte list" where
  "written [] = []"
| "written (FilterWrite bs # es) = bs @ written es"
| "written (e # es) = written es"

fun console :: "'n event list \<Rightarrow> 'n log_entry list" where
  "console [] = []"
| "console (ConsoleLog l # es) = l # console es"
| "console (e # es) = console es"

text \<open>The events of a request whose response body arrives in the given chunks.\<close>

definition request_trace :: "'n number_ops \<Rightarrow> request_details \<Rightarrow> byte list list \<Rightarrow> 'n event list" where
  "request_trace ops requestDetails chunks =
     (case mocker requestDetails of
        None \<Rightarrow> []
      | Some fltr \<Rightarrow> trace (fst (pump ops requestDetails fltr chunks)))"

text \<open>The bytes that reach the page.\<close>

definition delivered :: "disconnect_semantics \<Rightarrow> 'n number_ops \<Rightarrow> request_details \<Rightarrow> byte list list \<Rightarrow> byte list" where
  "delivered sem ops requestDetails chunks =
     (case mocker requestDetails of
        None \<Rightarrow> concat chunks
      | Some fltr \<Rightarrow>
          (let (fltr', rest) = pump ops requestDetails fltr chunks
           in written (trace fltr') @
              (case sem of RestPassesThrough \<Rightarrow> concat rest | RestDropped \<Rightarrow> [])))"

text \<open>The bytes of an ASCII text.\<close>

definition ascii :: "string \<Rightarrow> byte list" where
  "ascii s = map of_char s"

subsection \<open>Notions used by the properties\<close>

text \<open>
  A Unicode scalar value is a code point that is no surrogate. Well-formed UTF-8 is the
  encoding of a sequence of scalar values.
\<close>

definition is_scalar :: "nat \<Rightarrow> bool" where
  "is_scalar cp = (cp < 0xD800 \<or> (0xE000 \<le> cp \<and> cp < 0x110000))"

definition utf8_encode :: "nat list \<Rightarrow> byte list" where
  "utf8_encode cps = map of_nat (concat (map utf8_bytes cps))"

text \<open>
  What the UTF-8 decoder holds between two bytes of a sequence: the bounds for the next
  byte lie among the continuation bytes, and the bits read so far can only be completed to
  a scalar value.
\<close>

definition decoder_ok :: "utf8_decoder \<Rightarrow> bool" where
  "decoder_ok d =
     (0x80 \<le> lower_boundary d \<and> upper_boundary d \<le> 0xBF \<and>
      (bytes_needed d = 0 \<or>
       bytes_needed d = 1 \<and> (code_point d < 0x360 \<or> 0x380 \<le> code_point d \<and> code_point d < 0x4400) \<or>
       bytes_needed d = 2 \<and> (code_point d < 13 \<or> code_point d = 13 \<and> upper_boundary d \<le> 0x9F \<or>
                              14 \<le> code_point d \<and> code_point d < 0x110) \<or>
       bytes_needed d = 3 \<and> (code_point d = 0 \<and> 0x90 \<le> lower_boundary d \<or>
                              1 \<le> code_point d \<and> code_point d \<le> 3 \<or>
                              code_point d = 4 \<and> upper_boundary d \<le> 0x8F)))"

text \<open>
  \<open>grant ops g k\<close> is one of the two \<^verbatim>\<open>if\<close> statements in the loop of
  \<^verbatim>\<open>mock_companies\<close>, for the group \<open>g\<close> of permissions and the flag \<open>k\<close>; a company is
  \<open>granted g k\<close> when that statement would not change it.
\<close>

definition grant :: "'n number_ops \<Rightarrow> jstring \<Rightarrow> jstring \<Rightarrow> 'n json \<Rightarrow> 'n json" where
  "grant ops g k c =
     (if ToBoolean ops (opt_chain (opt_chain (Some c) (js ''permissions'')) g)
      then modify_prop c (js ''permissions'') (\<lambda>q. modify_prop q g (\<lambda>a. set_prop a k (JBool True)))
      else c)"

definition granted :: "jstring \<Rightarrow> jstring \<Rightarrow> 'n json \<Rightarrow> bool" where
  "granted g k c =
     (case opt_chain (opt_chain (Some c) (js ''permissions'')) g of
        None \<Rightarrow> True
      | Some a \<Rightarrow> set_prop a k (JBool True) = a)"



















section \<open>Properties\<close>

subsection \<open>Evaluation and the shape of a request\<close>

lemmas codec_defs =
  TextDecoder_decode_stream_def new_TextDecoder_def utf8_step_def utf8_lead_def utf8_initial_def
  utf16_units_def TextEncoder_encode_def utf8_bytes_def is_surrogate_def is_lead_surrogate_def
  is_trail_surrogate_def

lemmas parse_defs =
  JSON_parse_def is_ws_def is_digit_def is_number_char_def obj_set_def create_prop_def
  array_index_def JSON_number_def strip_sign_def strip_int_def strip_frac_def strip_exp_def
  strip_digits1_def hex4_value_def hex_value_def simple_escape_def

lemmas stringify_defs = QuoteJSONString_def quote_unit_def unicode_escape_def hex_digit_def

lemmas transform_defs =
  handle_mocking_def mock_companies_def mock_company_def mock_authorize_policies_def
  mock_policy_def policy_line_def get_prop_def ToString_def MOCK_POLICIES_def

lemma ondata_disconnects: "connected (ondata ops rd f c) = False"
  by (simp add: ondata_def Let_def split: prod.splits)

lemma pump_disconnected: "\<not> connected f \<Longrightarrow> pump ops rd f cs = (f, cs)"
  by (cases cs) simp_all

lemma delivered_ignored:
  "url rd \<in> set NOT_INTERESTING_URLS \<Longrightarrow> delivered sem ops rd chunks = concat chunks"
  by (simp add: delivered_def mocker_def)

lemma delivered_intercepted:
  "url rd \<notin> set NOT_INTERESTING_URLS \<Longrightarrow>
   delivered sem ops rd (c # cs) =
     written (trace (ondata ops rd \<lparr> decoder = new_TextDecoder, connected = True,
                                    trace = [FilterOpen (requestId rd)] \<rparr> c))
     @ (case sem of RestPassesThrough \<Rightarrow> concat cs | RestDropped \<Rightarrow> [])"
  by (simp add: delivered_def mocker_def pump_disconnected ondata_disconnects)

lemma trace_intercepted:
  "url rd \<notin> set NOT_INTERESTING_URLS \<Longrightarrow>
   request_trace ops rd (c # cs) =
     trace (ondata ops rd \<lparr> decoder = new_TextDecoder, connected = True,
                           trace = [FilterOpen (requestId rd)] \<rparr> c)"
  by (simp add: request_trace_def mocker_def pump_disconnected ondata_disconnects)

lemma companies_not_ignored: "js ''https://api.factorialhr.com/companies'' \<notin> set NOT_INTERESTING_URLS"
  by (simp add: NOT_INTERESTING_URLS_def js_def)

text \<open>
  Claim C4. For the address \<^verbatim>\<open>https://api.factorialhr.com/companies\<close> and the body
  \<^verbatim>\<open>[{"permissions":{"attendance":{"approve":false}}}]\<close>, arriving in one chunk, the
  bytes that reach the page are \<^verbatim>\<open>[{"permissions":{"attendance":{"approve":true}}}]\<close>.
\<close>

theorem companies_scenario_approve: \<open>delivered sem ops \<lparr> requestId = i, url = js ''https://api.factorialhr.com/companies'' \<rparr>
     [ascii ''[{"permissions":{"attendance":{"approve":false}}}]'']
   = ascii ''[{"permissions":{"attendance":{"approve":true}}}]''\<close>
  apply (subst delivered_intercepted)
   apply (simp add: companies_not_ignored)
  apply (cases sem)
  apply (simp_all add: ondata_def ascii_def js_def codec_defs parse_defs stringify_defs transform_defs)
  done


lemma unknown_not_configured:
  "u \<notin> set INTERESTING_URLS \<Longrightarrow>
   u \<noteq> js ''https://api.factorialhr.com/companies'' \<and>
   u \<noteq> js ''https://api.factorialhr.com/permissions/permissions/authorize_policies''"
  by (auto simp: INTERESTING_URLS_def)

lemma handle_mocking_default:
  "u \<notin> set INTERESTING_URLS \<Longrightarrow>
   handle_mocking ops u v =
     \<lparr> logged = [LogStr (js ''No mocker for: '' @ u), LogVal v], mem = v, thrown = None \<rparr>"
  using unknown_not_configured[of u] by (simp add: handle_mocking_def)

text \<open>
  Claim C3. For a URL of \<^verbatim>\<open>NOT_INTERESTING_URLS\<close>, \<^verbatim>\<open>mocker\<close> opens no filter, the
  request leaves no event behind (no decode, parse, dispatch, log, write or disconnect),
  and the page receives the chunks of the body as they came.
\<close>

theorem ignored_url_untouched:
  "url rd \<in> set NOT_INTERESTING_URLS \<Longrightarrow>
   (mocker rd :: 'n stream_filter option) = None \<and>
   request_trace (ops :: 'n number_ops) rd chunks = [] \<and>
   delivered sem ops rd chunks = concat chunks"
  by (simp add: delivered_ignored request_trace_def mocker_def)

text \<open>The theorem of C3 at the URL \<^verbatim>\<open>https://api.factorialhr.com/teams\<close>.\<close>

theorem ignored_url_untouched_witness:
  \<open>url \<lparr> requestId = 1, url = js ''https://api.factorialhr.com/teams'' \<rparr> \<in> set NOT_INTERESTING_URLS \<and>
   (mocker \<lparr> requestId = 1, url = js ''https://api.factorialhr.com/teams'' \<rparr> :: int stream_filter option) = None \<and>
   request_trace int_ops \<lparr> requestId = 1, url = js ''https://api.factorialhr.com/teams'' \<rparr> [ascii ''[{"id":'', ascii ''1}]''] = [] \<and>
   delivered RestDropped int_ops \<lparr> requestId = 1, url = js ''https://api.factorialhr.com/teams'' \<rparr> [ascii ''[{"id":'', ascii ''1}]'']
     = ascii ''[{"id":1}]''\<close>
proof -
  have h: "url \<lparr> requestId = 1, url = js ''https://api.factorialhr.com/teams'' \<rparr> \<in> set NOT_INTERESTING_URLS"
    by (simp add: NOT_INTERESTING_URLS_def)
  show ?thesis
    using h ignored_url_untouched[OF h, where ?'n = int, of int_ops "[ascii ''[{\"id\":'', ascii ''1}]'']" RestDropped]
    by (simp add: ascii_def)
qed

text \<open>
  Claim C7. For the address \<^verbatim>\<open>https://api.factorialhr.com/companies\<close> and the body
  \<^verbatim>\<open>[{"permissions":{}}]\<close> the page receives the same bytes; the transform leaves the
  parsed value as it is and throws nothing.
\<close>

theorem companies_scenario_no_fields: \<open>delivered sem ops \<lparr> requestId = i, url = js ''https://api.factorialhr.com/companies'' \<rparr>
       [ascii ''[{"permissions":{}}]''] = ascii ''[{"permissions":{}}]'' \<and>
     JSON_parse ops (js ''[{"permissions":{}}]'') = Inr (JArr [JObj [(js ''permissions'', JObj [])]]) \<and>
     mem (handle_mocking ops (js ''https://api.factorialhr.com/companies'') (JArr [JObj [(js ''permissions'', JObj [])]]))
       = JArr [JObj [(js ''permissions'', JObj [])]] \<and>
     thrown (handle_mocking ops (js ''https://api.factorialhr.com/companies'') (JArr [JObj [(js ''permissions'', JObj [])]]))
       = None\<close>
proof -
  have d: \<open>delivered sem ops \<lparr> requestId = i, url = js ''https://api.factorialhr.com/companies'' \<rparr>
       [ascii ''[{"permissions":{}}]''] = ascii ''[{"permissions":{}}]''\<close>
    apply (subst delivered_intercepted)
     apply (simp add: companies_not_ignored)
    apply (cases sem)
     apply (simp_all add: ondata_def ascii_def js_def codec_defs parse_defs stringify_defs transform_defs)
    done
  have p: \<open>JSON_parse ops (js ''[{"permissions":{}}]'') = Inr (JArr [JObj [(js ''permissions'', JObj [])]])\<close>
    by (simp add: js_def parse_defs)
  have m: \<open>handle_mocking ops (js ''https://api.factorialhr.com/companies'') (JArr [JObj [(js ''permissions'', JObj [])]])
      = \<lparr> logged = [LogStr (js ''Companies original response:''), LogVal (JArr [JObj [(js ''permissions'', JObj [])]]),
                    LogStr (js ''Companies mocked response:''), LogVal (JArr [JObj [(js ''permissions'', JObj [])]])],
           mem = JArr [JObj [(js ''permissions'', JObj [])]], thrown = None \<rparr>\<close>
    by (simp add: js_def transform_defs)
  from d p m show ?thesis by simp
qed

text \<open>
  Claim C2, at a failing input. The body of C4 arrives in two chunks. The handler sees the
  first chunk only: it does not parse, so it is written as it is, and the filter
  disconnects. The page receives the body unchanged (when the rest passes through) or its
  first chunk (when the rest is dropped), never the body with \<^verbatim>\<open>approve\<close> set, which is
  what the one-chunk delivery of C4 gives.
\<close>

theorem split_body_first_chunk_only: \<open>delivered RestPassesThrough ops \<lparr> requestId = i, url = js ''https://api.factorialhr.com/companies'' \<rparr>
       [ascii ''[{"permissions":{"attendance":'', ascii ''{"approve":false}}}]'']
       = ascii ''[{"permissions":{"attendance":{"approve":false}}}]'' \<and>
     delivered RestDropped ops \<lparr> requestId = i, url = js ''https://api.factorialhr.com/companies'' \<rparr>
       [ascii ''[{"permissions":{"attendance":'', ascii ''{"approve":false}}}]'']
       = ascii ''[{"permissions":{"attendance":''\<close>
  apply (subst delivered_intercepted, simp add: companies_not_ignored)+
  apply (simp add: ondata_def ascii_def js_def codec_defs parse_defs stringify_defs transform_defs)
  done

text \<open>
  Claim C1 fails for the body that is the single byte \<^verbatim>\<open>0xFF\<close>: the decoded text does not
  parse, and the page receives the three bytes of U+FFFD.
\<close>

theorem invalid_utf8_replaced: \<open>JSON_parse int_ops (fst (TextDecoder_decode_stream new_TextDecoder [0xFF])) = Inl SyntaxError \<and>
     delivered RestPassesThrough int_ops \<lparr> requestId = 1, url = js ''https://api.factorialhr.com/employees'' \<rparr> [[0xFF]]
       = [0xEF, 0xBF, 0xBD] \<and>
     delivered RestPassesThrough int_ops \<lparr> requestId = 1, url = js ''https://api.factorialhr.com/employees'' \<rparr> [[0xFF]]
       \<noteq> [0xFF]\<close>
proof -
  have n: "url \<lparr> requestId = 1, url = js ''https://api.factorialhr.com/employees'' \<rparr> \<notin> set NOT_INTERESTING_URLS"
    by (simp add: NOT_INTERESTING_URLS_def js_def)
  show ?thesis
    apply (simp only: delivered_intercepted[OF n])
    apply (simp add: ondata_def ascii_def js_def codec_defs parse_defs stringify_defs transform_defs)
    done
qed

text \<open>
  Claim C9 fails in its count: for an address in neither list and the body
  \<^verbatim>\<open>{"x":1}\<close>, \<^verbatim>\<open>console.log\<close> is called twice.
\<close>

theorem unknown_scenario_two_entries: \<open>length (console (request_trace int_ops
       \<lparr> requestId = 1, url = js ''https://api.factorialhr.com/employees'' \<rparr> [ascii ''{"x":1}''])) = 2\<close>
proof -
  have n: "url \<lparr> requestId = 1, url = js ''https://api.factorialhr.com/employees'' \<rparr> \<notin> set NOT_INTERESTING_URLS"
    by (simp add: NOT_INTERESTING_URLS_def js_def)
  show ?thesis
    apply (subst trace_intercepted[OF n])
    apply (simp add: ondata_def ascii_def js_def codec_defs parse_defs stringify_defs transform_defs)
    done
qed

text \<open>
  Claim C9, amended. For an address in neither list and the body \<^verbatim>\<open>{"x":1}\<close>, arriving
  in one chunk, the page receives the same bytes, and exactly two entries are logged: the
  line \<^verbatim>\<open>No mocker for: \<close> with the address, then the parsed body. The platform is
  assumed to print the number it reads from the literal \<^verbatim>\<open>1\<close> as \<^verbatim>\<open>1\<close>.
\<close>

theorem unknown_scenario:
  assumes \<open>u \<notin> set NOT_INTERESTING_URLS\<close> and \<open>u \<notin> set INTERESTING_URLS\<close>
    and \<open>isFinite ops (StringToNumber ops (js ''1''))\<close>
    and \<open>NumberToString ops (StringToNumber ops (js ''1'')) = js ''1''\<close>
  shows \<open>delivered sem ops \<lparr> requestId = i, url = u \<rparr> [ascii ''{"x":1}''] = ascii ''{"x":1}'' \<and>
     console (request_trace ops \<lparr> requestId = i, url = u \<rparr> [ascii ''{"x":1}''])
       = [LogStr (js ''No mocker for: '' @ u), LogVal (JObj [(js ''x'', JNum (StringToNumber ops (js ''1'')))])]\<close>
proof -
  have n: "url \<lparr> requestId = i, url = u \<rparr> \<notin> set NOT_INTERESTING_URLS"
    using assms(1) by simp
  have p: \<open>JSON_parse ops (js ''{"x":1}'') = Inr (JObj [(js ''x'', JNum (StringToNumber ops (js ''1'')))])\<close>
    by (simp add: js_def parse_defs)
  have d: \<open>TextDecoder_decode_stream new_TextDecoder (ascii ''{"x":1}'') = (js ''{"x":1}'', \<lparr> utf8 = utf8_initial, BOM_seen = True \<rparr>)\<close>
    by (simp add: ascii_def js_def codec_defs)
  have s: \<open>TextEncoder_encode (JSON_stringify ops (JObj [(js ''x'', JNum (StringToNumber ops (js ''1'')))])) = ascii ''{"x":1}''\<close>
    using assms(3,4) by (simp add: ascii_def js_def codec_defs stringify_defs)
  show ?thesis
    apply (subst delivered_intercepted[OF n])
    apply (subst trace_intercepted[OF n])
    apply (cases sem)
     apply (simp_all add: ondata_def d p s handle_mocking_default[OF assms(2)] del: JSON_stringify.simps)
    done
qed


text \<open>The theorem of C9 at the address \<^verbatim>\<open>https://api.factorialhr.com/employees\<close>.\<close>

theorem unknown_scenario_witness:
  \<open>js ''https://api.factorialhr.com/employees'' \<notin> set NOT_INTERESTING_URLS \<and>
   js ''https://api.factorialhr.com/employees'' \<notin> set INTERESTING_URLS \<and>
   isFinite int_ops (StringToNumber int_ops (js ''1'')) \<and>
   NumberToString int_ops (StringToNumber int_ops (js ''1'')) = js ''1'' \<and>
   delivered RestPassesThrough int_ops \<lparr> requestId = 1, url = js ''https://api.factorialhr.com/employees'' \<rparr>
     [ascii ''{"x":1}''] = ascii ''{"x":1}'' \<and>
   console (request_trace int_ops \<lparr> requestId = 1, url = js ''https://api.factorialhr.com/employees'' \<rparr>
     [ascii ''{"x":1}''])
     = [LogStr (js ''No mocker for: '' @ js ''https://api.factorialhr.com/employees''), LogVal (JObj [(js ''x'', JNum 1)])]\<close>
proof -
  have a: "js ''https://api.factorialhr.com/employees'' \<notin> set NOT_INTERESTING_URLS"
    by (simp add: NOT_INTERESTING_URLS_def js_def)
  have b: "js ''https://api.factorialhr.com/employees'' \<notin> set INTERESTING_URLS"
    by (simp add: INTERESTING_URLS_def js_def)
  have c: "isFinite int_ops (StringToNumber int_ops (js ''1''))"
    by (simp add: int_ops_def)
  have n: "StringToNumber int_ops (js ''1'') = 1"
    by (simp add: int_ops_def int_of_literal_def js_def is_digit_def decimal_value_def)
  have d: "NumberToString int_ops (StringToNumber int_ops (js ''1'')) = js ''1''"
    by (simp add: n) (simp add: int_ops_def literal_of_int_def js_def digits_of.simps)
  show ?thesis
    using a b c d unknown_scenario[OF a b c d, of RestPassesThrough 1] by (simp add: n)
qed

text \<open>
  Claim C10. A URL that is equal to no entry of \<^verbatim>\<open>NOT_INTERESTING_URLS\<close> and to no entry
  of \<^verbatim>\<open>INTERESTING_URLS\<close> is handled as unknown: \<^verbatim>\<open>handle_mocking\<close> logs the address and
  the value and leaves the value as it is, and the request decodes its first chunk, parses
  it, and (when it parses) logs and writes the value it parsed.
\<close>

theorem unknown_url_dispatch:
  assumes "u \<notin> set NOT_INTERESTING_URLS" and "u \<notin> set INTERESTING_URLS"
  shows "handle_mocking ops u v =
           \<lparr> logged = [LogStr (js ''No mocker for: '' @ u), LogVal v], mem = v, thrown = None \<rparr> \<and>
         request_trace ops \<lparr> requestId = i, url = u \<rparr> (c # cs) =
           [FilterOpen i, CallDecode, CallParse] @
           (case JSON_parse ops (fst (TextDecoder_decode_stream new_TextDecoder c)) of
              Inl e \<Rightarrow> [FilterWrite (TextEncoder_encode (fst (TextDecoder_decode_stream new_TextDecoder c)))]
            | Inr w \<Rightarrow> [CallHandleMocking, ConsoleLog (LogStr (js ''No mocker for: '' @ u)),
                        ConsoleLog (LogVal w), FilterWrite (TextEncoder_encode (JSON_stringify ops w))])
           @ [FilterDisconnect]"
proof -
  have n: "url \<lparr> requestId = i, url = u \<rparr> \<notin> set NOT_INTERESTING_URLS"
    using assms(1) by simp
  obtain str d where dd: "TextDecoder_decode_stream new_TextDecoder c = (str, d)"
    by (cases "TextDecoder_decode_stream new_TextDecoder c")
  show ?thesis
    apply (subst trace_intercepted[OF n])
    apply (simp add: ondata_def dd handle_mocking_default[OF assms(2)] split: sum.splits)
    done
qed

text \<open>The theorem of C10 at the companies URL with a query string appended.\<close>

theorem unknown_url_dispatch_witness:
  \<open>js ''https://api.factorialhr.com/companies?page=2'' \<notin> set NOT_INTERESTING_URLS \<and>
   js ''https://api.factorialhr.com/companies?page=2'' \<notin> set INTERESTING_URLS \<and>
   handle_mocking int_ops (js ''https://api.factorialhr.com/companies?page=2'')
       (JArr [JObj [(js ''permissions'', JObj [(js ''attendance'', JObj [(js ''approve'', JBool False)])])]])
     = \<lparr> logged = [LogStr (js ''No mocker for: '' @ js ''https://api.factorialhr.com/companies?page=2''),
                   LogVal (JArr [JObj [(js ''permissions'', JObj [(js ''attendance'', JObj [(js ''approve'', JBool False)])])]])],
          mem = JArr [JObj [(js ''permissions'', JObj [(js ''attendance'', JObj [(js ''approve'', JBool False)])])]],
          thrown = None \<rparr> \<and>
   request_trace int_ops \<lparr> requestId = 3, url = js ''https://api.factorialhr.com/companies?page=2'' \<rparr> [ascii ''[]'']
     = [FilterOpen 3, CallDecode, CallParse, CallHandleMocking,
        ConsoleLog (LogStr (js ''No mocker for: '' @ js ''https://api.factorialhr.com/companies?page=2'')),
        ConsoleLog (LogVal (JArr [])), FilterWrite (ascii ''[]''), FilterDisconnect]\<close>
proof -
  have a: "js ''https://api.factorialhr.com/companies?page=2'' \<notin> set NOT_INTERESTING_URLS"
    by (simp add: NOT_INTERESTING_URLS_def js_def)
  have b: "js ''https://api.factorialhr.com/companies?page=2'' \<notin> set INTERESTING_URLS"
    by (simp add: INTERESTING_URLS_def js_def)
  have d: \<open>TextDecoder_decode_stream new_TextDecoder (ascii ''[]'') = (js ''[]'', \<lparr> utf8 = utf8_initial, BOM_seen = True \<rparr>)\<close>
    by (simp add: ascii_def js_def codec_defs)
  have p: \<open>JSON_parse int_ops (js ''[]'') = Inr (JArr [])\<close>
    by (simp add: js_def parse_defs)
  have e: \<open>TextEncoder_encode (JSON_stringify int_ops (JArr [])) = ascii ''[]''\<close>
    by (simp add: ascii_def codec_defs)
  show ?thesis
    using a b unknown_url_dispatch[OF a b, of int_ops _ 3 "ascii ''[]''" "[]"]
    by (simp add: d p e del: JSON_stringify.simps)
qed



subsection \<open>The transforms are idempotent\<close>

lemma map_of_takeWhile_None: "map_of ps k = None \<Longrightarrow> map_of (takeWhile P ps) k = None"
  by (induction ps) (auto split: if_splits)

lemma map_of_obj_set_same: "map_of (obj_set k v ps) k = Some v"
  by (auto simp: obj_set_def create_prop_def AList.update_conv' map_of_takeWhile_None map_add_def split: option.splits)

lemma map_of_split_While: "(map_of (dropWhile P ps) ++ map_of (takeWhile P ps)) = map_of ps"
proof -
  have "map_of ps = map_of (takeWhile P ps @ dropWhile P ps)" by simp
  then show ?thesis by (simp only: map_of_append)
qed

lemma map_of_obj_set_other: "k' \<noteq> k \<Longrightarrow> map_of (obj_set k v ps) k' = map_of ps k'"
proof (cases "map_of ps k")
  case None
  assume ne: "k' \<noteq> k"
  show ?thesis
  proof (cases "array_index k")
    case None
    with \<open>map_of ps k = None\<close> ne show ?thesis
      by (simp add: obj_set_def create_prop_def map_add_def split: option.splits)
  next
    case (Some i)
    have "map_of (takeWhile (\<lambda>p. index_below i (fst p)) ps @ [(k, v)] @ dropWhile (\<lambda>p. index_below i (fst p)) ps) k'
        = (map_of (dropWhile (\<lambda>p. index_below i (fst p)) ps) ++ map_of (takeWhile (\<lambda>p. index_below i (fst p)) ps)) k'"
      using ne by (simp add: map_add_def split: option.splits)
    with \<open>map_of ps k = None\<close> Some show ?thesis
      by (simp add: obj_set_def create_prop_def map_of_split_While del: map_of_append)
  qed
next
  case (Some w)
  assume "k' \<noteq> k"
  with Some show ?thesis by (simp add: obj_set_def AList.update_conv')
qed

lemma obj_set_idem: "obj_set k v (obj_set k v ps) = obj_set k v ps"
proof -
  have "obj_set k v (obj_set k v ps) = AList.update k v (obj_set k v ps)"
    by (simp add: obj_set_def[of k v "obj_set k v ps"] map_of_obj_set_same)
  also have "\<dots> = obj_set k v ps"
    by (rule AList.update_triv) (rule map_of_obj_set_same)
  finally show ?thesis .
qed

lemma set_prop_idem: "set_prop (set_prop a k v) k v = set_prop a k v"
  by (cases a) (simp_all add: obj_set_idem)

lemma falsy_set_prop: "\<not> ToBoolean ops (Some a) \<Longrightarrow> set_prop a k v = a"
  by (cases a) simp_all

lemma modify_prop_not_null: "x \<noteq> JNull \<Longrightarrow> modify_prop x k f \<noteq> JNull"
  by (cases x) (simp_all split: option.splits)

lemma opt_chain_modify:
  "opt_chain (Some (modify_prop x k f)) k' =
     (if k' = k then map_option f (opt_chain (Some x) k) else opt_chain (Some x) k')"
  by (cases x) (auto simp: AList.update_conv' split: option.splits)

lemma modify_prop_fix:
  "(\<And>y. opt_chain (Some x) k = Some y \<Longrightarrow> f y = y) \<Longrightarrow> modify_prop x k f = x"
  by (cases x) (auto simp: AList.update_triv split: option.splits)


lemma grant_not_null: "c \<noteq> JNull \<Longrightarrow> grant ops g k c \<noteq> JNull"
  by (simp add: grant_def modify_prop_not_null)

lemma mock_company_grant:
  "mock_company ops c =
     (if c = JNull then Inl TypeError
      else Inr (grant ops (js ''payroll'') (js ''edit_supplements'')
                  (grant ops (js ''attendance'') (js ''approve'') c)))"
  by (simp add: mock_company_def get_prop_def grant_def Let_def modify_prop_not_null)

lemma granted_fix: "granted g k c \<Longrightarrow> grant ops g k c = c"
  unfolding grant_def granted_def
  by (auto intro!: modify_prop_fix split: option.splits)

lemma granted_grant: "granted g k (grant ops g k c)"
proof (cases "ToBoolean ops (opt_chain (opt_chain (Some c) (js ''permissions'')) g)")
  case False
  then show ?thesis
    by (auto simp: grant_def granted_def falsy_set_prop split: option.splits)
next
  case True
  then obtain a where a: "opt_chain (opt_chain (Some c) (js ''permissions'')) g = Some a"
    by (cases "opt_chain (opt_chain (Some c) (js ''permissions'')) g") auto
  then obtain q where q: "opt_chain (Some c) (js ''permissions'') = Some q"
    by (cases "opt_chain (Some c) (js ''permissions'')") auto
  with a have qa: "opt_chain (Some q) g = Some a" by simp
  from True show ?thesis
    by (simp add: grant_def granted_def opt_chain_modify q qa set_prop_idem)
qed

lemma granted_other: "g \<noteq> g' \<Longrightarrow> granted g k c \<Longrightarrow> granted g k (grant ops g' k' c)"
proof (cases "opt_chain (Some c) (js ''permissions'')")
  case None
  assume "g \<noteq> g'" "granted g k c"
  with None show ?thesis by (simp add: grant_def granted_def)
next
  case (Some q)
  assume "g \<noteq> g'" "granted g k c"
  with Some show ?thesis by (simp add: grant_def granted_def opt_chain_modify)
qed

lemma mock_company_idem: "mock_company ops c = Inr c' \<Longrightarrow> mock_company ops c' = Inr c'"
proof -
  assume m: "mock_company ops c = Inr c'"
  then have nn: "c \<noteq> JNull" and c': "c' = grant ops (js ''payroll'') (js ''edit_supplements'')
                  (grant ops (js ''attendance'') (js ''approve'') c)"
    by (auto simp: mock_company_grant split: if_splits)
  have ne: "js ''attendance'' \<noteq> js ''payroll''" by (simp add: js_def)
  have g1: "granted (js ''attendance'') (js ''approve'') c'"
    unfolding c' by (rule granted_other[OF ne granted_grant])
  have g2: "granted (js ''payroll'') (js ''edit_supplements'') c'"
    unfolding c' by (rule granted_grant)
  have "c' \<noteq> JNull" unfolding c' by (intro grant_not_null nn)
  then show ?thesis
    by (simp add: mock_company_grant granted_fix[OF g1] granted_fix[OF g2])
qed

lemma companies_loop_idem:
  "companies_loop ops xs = (ys, r) \<Longrightarrow> companies_loop ops ys = (ys, r)"
proof (induction xs arbitrary: ys r)
  case Nil
  then show ?case by simp
next
  case (Cons c cs)
  show ?case
  proof (cases "mock_company ops c")
    case (Inl e)
    with Cons.prems show ?thesis by auto
  next
    case (Inr c')
    obtain cs' r' where l: "companies_loop ops cs = (cs', r')"
      by (cases "companies_loop ops cs")
    from Cons.prems Inr l have ys: "ys = c' # cs'" and r: "r = r'" by auto
    from Cons.IH[OF l] mock_company_idem[OF Inr] show ?thesis
      by (simp add: ys r)
  qed
qed

lemma companies_loop_length: "companies_loop ops xs = (ys, r) \<Longrightarrow> length ys = length xs"
  by (induction xs arbitrary: ys r) (auto split: sum.splits prod.splits)

lemma mock_companies_no_loop:
  "\<not> (\<exists>c cs. v = JArr (c # cs)) \<Longrightarrow>
   mem (mock_companies ops v) = v \<and> thrown (mock_companies ops v) = None"
  by (cases v) (auto simp: mock_companies_def Let_def split: list.splits)

lemma mock_companies_idem:
  "mem (mock_companies ops (mem (mock_companies ops v))) = mem (mock_companies ops v) \<and>
   thrown (mock_companies ops (mem (mock_companies ops v))) = thrown (mock_companies ops v)"
proof (cases "\<exists>c cs. v = JArr (c # cs)")
  case False
  then show ?thesis
    by (simp add: mock_companies_no_loop)
next
  case True
  then obtain c cs where v: "v = JArr (c # cs)" by auto
  obtain ys r where l: "companies_loop ops (c # cs) = (ys, r)"
    by (cases "companies_loop ops (c # cs)")
  from companies_loop_length[OF l] obtain y ys' where ys: "ys = y # ys'"
    by (cases ys) auto
  have m: "mem (mock_companies ops v) = JArr (y # ys')" "thrown (mock_companies ops v) = r"
    using l ys by (auto simp: mock_companies_def v Let_def simp del: companies_loop.simps split: option.splits)
  have l2: "companies_loop ops (y # ys') = (y # ys', r)"
    using companies_loop_idem[OF l] ys by simp
  have "mem (mock_companies ops (JArr (y # ys'))) = JArr (y # ys')" "thrown (mock_companies ops (JArr (y # ys'))) = r"
    using l2 by (auto simp: mock_companies_def Let_def simp del: companies_loop.simps split: option.splits)
  with m show ?thesis by simp
qed


lemma policy_line_mocked:
  "policy_line ops p m = Inl e \<Longrightarrow> policy_line ops p m' = Inl e"
  "policy_line ops p m = Inr s \<Longrightarrow> \<exists>s'. policy_line ops p m' = Inr s'"
  by (auto simp: policy_line_def split: sum.splits)

lemma includes_policy_object:
  "includes_policy (opt_chain (Some p) k) \<Longrightarrow> \<exists>ps. p = JObj ps"
  by (cases p) simp_all

lemma mock_policy_idem:
  "mock_policy ops p = (p', l, r) \<Longrightarrow> \<exists>l'. mock_policy ops p' = (p', l', r)"
proof (cases "p = JNull")
  case True
  assume "mock_policy ops p = (p', l, r)"
  with True show ?thesis by (auto simp: mock_policy_def get_prop_def)
next
  case nn: False
  assume m: "mock_policy ops p = (p', l, r)"
  show ?thesis
  proof (cases "includes_policy (opt_chain (Some p) (js ''policy_key'')) \<and>
                \<not> ToBoolean ops (opt_chain (Some p) (js ''authorize''))")
    case False
    with m nn have "p' = p"
      by (auto simp: mock_policy_def get_prop_def split: sum.splits if_splits)
    with m show ?thesis by auto
  next
    case True
    then obtain ps where ps: "p = JObj ps" using includes_policy_object by blast
    have ne: "js ''policy_key'' \<noteq> js ''authorize''" by (simp add: js_def)
    from m True nn have p': "p' = JObj (obj_set (js ''authorize'') (JBool True) ps)"
      by (auto simp: mock_policy_def get_prop_def ps split: sum.splits)
    from m True nn p' have r: "r = (case policy_line ops p' (js '' (mocked)'') of Inl e \<Rightarrow> Some e | Inr s \<Rightarrow> None)"
      by (auto simp: mock_policy_def get_prop_def ps split: sum.splits)
    have a: "opt_chain (Some p') (js ''authorize'') = Some (JBool True)"
      by (simp add: p' map_of_obj_set_same)
    have nn': "p' \<noteq> JNull" by (simp add: p')
    have k: "opt_chain (Some p') (js ''policy_key'') = opt_chain (Some p) (js ''policy_key'')"
      using ne by (simp add: p' ps map_of_obj_set_other)
    have second: "mock_policy ops p' =
        (case policy_line ops p' [] of Inl e \<Rightarrow> (p', [], Some e) | Inr line \<Rightarrow> (p', [LogStr line], None))"
      using True by (simp add: mock_policy_def get_prop_def nn' k a)
    show ?thesis
    proof (cases "policy_line ops p' (js '' (mocked)'')")
      case (Inl e)
      with policy_line_mocked(1)[OF Inl, of "[]"] r second show ?thesis by simp
    next
      case (Inr s)
      from policy_line_mocked(2)[OF Inr, of "[]"] obtain s' where "policy_line ops p' [] = Inr s'" by blast
      with Inr r second show ?thesis by simp
    qed
  qed
qed

lemma policies_loop_idem:
  "policies_loop ops xs = (ys, l, r) \<Longrightarrow> \<exists>l'. policies_loop ops ys = (ys, l', r)"
proof (induction xs arbitrary: ys l r)
  case Nil
  then show ?case by simp
next
  case (Cons p ps)
  obtain p' l1 r1 where m: "mock_policy ops p = (p', l1, r1)"
    by (cases "mock_policy ops p")
  from mock_policy_idem[OF m] obtain l1' where m': "mock_policy ops p' = (p', l1', r1)" by blast
  show ?case
  proof (cases r1)
    case (Some e)
    with Cons.prems m have "ys = p' # ps" "r = Some e" by auto
    with m' Some show ?thesis by auto
  next
    case None
    obtain ps' l2 r2 where l: "policies_loop ops ps = (ps', l2, r2)"
      by (cases "policies_loop ops ps")
    from Cons.IH[OF l] obtain l2' where l': "policies_loop ops ps' = (ps', l2', r2)" by blast
    from Cons.prems m None l have "ys = p' # ps'" "r = r2" by auto
    with m' None l' show ?thesis by auto
  qed
qed

lemma policies_loop_length: "policies_loop ops xs = (ys, l, r) \<Longrightarrow> length ys = length xs"
  by (induction xs arbitrary: ys l r) (auto split: option.splits prod.splits)

lemma mock_authorize_policies_no_loop:
  "\<not> (\<exists>c cs. v = JArr (c # cs)) \<Longrightarrow>
   mem (mock_authorize_policies ops v) = v \<and> thrown (mock_authorize_policies ops v) = None"
  by (cases v) (auto simp: mock_authorize_policies_def split: list.splits)

lemma mock_authorize_policies_idem:
  "mem (mock_authorize_policies ops (mem (mock_authorize_policies ops v))) = mem (mock_authorize_policies ops v) \<and>
   thrown (mock_authorize_policies ops (mem (mock_authorize_policies ops v))) = thrown (mock_authorize_policies ops v)"
proof (cases "\<exists>c cs. v = JArr (c # cs)")
  case False
  then show ?thesis
    by (simp add: mock_authorize_policies_no_loop)
next
  case True
  then obtain c cs where v: "v = JArr (c # cs)" by auto
  obtain ys l r where l: "policies_loop ops (c # cs) = (ys, l, r)"
    by (cases "policies_loop ops (c # cs)")
  from policies_loop_length[OF l] obtain y ys' where ys: "ys = y # ys'"
    by (cases ys) auto
  have m: "mem (mock_authorize_policies ops v) = JArr (y # ys')" "thrown (mock_authorize_policies ops v) = r"
    using l ys by (auto simp: mock_authorize_policies_def v simp del: policies_loop.simps)
  from policies_loop_idem[OF l] ys obtain l' where l2: "policies_loop ops (y # ys') = (y # ys', l', r)"
    by auto
  have "mem (mock_authorize_policies ops (JArr (y # ys'))) = JArr (y # ys')"
       "thrown (mock_authorize_policies ops (JArr (y # ys'))) = r"
    using l2 by (auto simp: mock_authorize_policies_def simp del: policies_loop.simps)
  with m show ?thesis by simp
qed

text \<open>
  Claim C6. Applying a registered transform, or the dispatcher for any URL, to the value
  that it left behind leaves the same value behind, and ends in the same way (normally or
  with the same exception).
\<close>

theorem transforms_idempotent:
  "mem (mock_companies ops (mem (mock_companies ops v))) = mem (mock_companies ops v) \<and>
   mem (mock_authorize_policies ops (mem (mock_authorize_policies ops v))) = mem (mock_authorize_policies ops v) \<and>
   mem (handle_mocking ops u (mem (handle_mocking ops u v))) = mem (handle_mocking ops u v) \<and>
   thrown (handle_mocking ops u (mem (handle_mocking ops u v))) = thrown (handle_mocking ops u v)"
  using mock_companies_idem[of ops v] mock_authorize_policies_idem[of ops v]
  by (simp add: handle_mocking_def)

subsection \<open>Well-formed UTF-8 survives decoding and encoding\<close>

lemma split_mod: "r < m \<Longrightarrow> (m * q + r) mod m = (r::nat)"
  by simp

lemma cont_mod: "r < 64 \<Longrightarrow> (128 + r) mod 64 = (r::nat)"
  using split_mod[of r 64 2] by simp

lemma lead2_mod: "a < 32 \<Longrightarrow> (192 + a) mod 32 = (a::nat)"
  using split_mod[of a 32 6] by simp

lemma lead3_mod: "a < 16 \<Longrightarrow> (224 + a) mod 16 = (a::nat)"
  using split_mod[of a 16 14] by simp

lemma lead4_mod: "a < 8 \<Longrightarrow> (240 + a) mod 8 = (a::nat)"
  using split_mod[of a 8 30] by simp

lemma utf8_run_1:
  "b \<le> 0x7F \<Longrightarrow> utf8_run utf8_initial (b # bs) =
     (b # fst (utf8_run utf8_initial bs), snd (utf8_run utf8_initial bs))"
  by (simp add: utf8_step_def utf8_lead_def utf8_initial_def split: prod.splits)

lemma utf8_run_2:
  assumes "2 \<le> a" "a < 32" "r < 64"
  shows "utf8_run utf8_initial ((0xC0 + a) # (0x80 + r) # bs) =
     ((a * 64 + r) # fst (utf8_run utf8_initial bs), snd (utf8_run utf8_initial bs))"
  using assms
  by (simp add: utf8_step_def utf8_lead_def utf8_initial_def lead2_mod cont_mod split: prod.splits)

lemma utf8_run_3:
  assumes "a < 16" "b < 64" "r < 64" "a = 0 \<Longrightarrow> 32 \<le> b" "a = 13 \<Longrightarrow> b < 32"
  shows "utf8_run utf8_initial ((0xE0 + a) # (0x80 + b) # (0x80 + r) # bs) =
     (((a * 64 + b) * 64 + r) # fst (utf8_run utf8_initial bs), snd (utf8_run utf8_initial bs))"
  using assms
  by (auto simp: utf8_step_def utf8_lead_def utf8_initial_def lead3_mod cont_mod split: prod.splits)

lemma utf8_run_4:
  assumes "a \<le> 4" "b < 64" "c < 64" "r < 64" "a = 0 \<Longrightarrow> 16 \<le> b" "a = 4 \<Longrightarrow> b < 16"
  shows "utf8_run utf8_initial ((0xF0 + a) # (0x80 + b) # (0x80 + c) # (0x80 + r) # bs) =
     ((((a * 64 + b) * 64 + c) * 64 + r) # fst (utf8_run utf8_initial bs), snd (utf8_run utf8_initial bs))"
  using assms
  by (auto simp: utf8_step_def utf8_lead_def utf8_initial_def lead4_mod cont_mod split: prod.splits)


lemma div_4096: "(cp::nat) div 4096 = cp div 64 div 64"
  by (simp add: div_mult2_eq[symmetric])

lemma div_262144: "(cp::nat) div 262144 = cp div 64 div 64 div 64"
  by (simp add: div_mult2_eq[symmetric])

lemma base64_2: "(cp::nat) div 64 * 64 + cp mod 64 = cp"
  by simp

lemma base64_3: "((cp::nat) div 4096 * 64 + cp div 64 mod 64) * 64 + cp mod 64 = cp"
  by (simp add: div_4096)

lemma base64_4: "(((cp::nat) div 262144 * 64 + cp div 4096 mod 64) * 64 + cp div 64 mod 64) * 64 + cp mod 64 = cp"
  by (simp add: div_4096 div_262144)

lemma utf8_run_bytes:
  assumes "is_scalar cp"
  shows "utf8_run utf8_initial (utf8_bytes cp @ bs) =
     (cp # fst (utf8_run utf8_initial bs), snd (utf8_run utf8_initial bs))"
proof -
  consider (one) "cp < 0x80" | (two) "0x80 \<le> cp" "cp < 0x800"
    | (three) "0x800 \<le> cp" "cp < 0x10000" | (four) "0x10000 \<le> cp"
    by linarith
  then show ?thesis
  proof cases
    case one
    then show ?thesis using utf8_run_1[of cp bs] by (simp add: utf8_bytes_def)
  next
    case two
    have "2 \<le> cp div 64" "cp div 64 < 32" "cp mod 64 < 64" using two by simp_all
    from utf8_run_2[OF this, of bs, unfolded base64_2] two show ?thesis
      by (simp add: utf8_bytes_def)
  next
    case three
    have b: "cp div 4096 < 16" "cp div 64 mod 64 < 64" "cp mod 64 < 64" using three by simp_all
    have lo: "32 \<le> cp div 64 mod 64" if "cp div 4096 = 0"
    proof -
      from that have "cp < 4096" by (simp add: div_eq_0_iff)
      then have "cp div 64 < 64" by simp
      moreover from three have "32 \<le> cp div 64" by simp
      ultimately show ?thesis by simp
    qed
    have hi: "cp div 64 mod 64 < 32" if "cp div 4096 = 13"
    proof -
      from that have "cp div 64 div 64 = 13" by (simp add: div_4096)
      then have "cp div 64 = 13 * 64 + cp div 64 mod 64"
        using div_mult_mod_eq[of "cp div 64" 64] by simp
      moreover have "cp < 0xD800" using assms that by (auto simp: is_scalar_def)
      then have "cp div 64 < 864" by simp
      ultimately show ?thesis by linarith
    qed
    from utf8_run_3[OF b lo hi, of bs, unfolded base64_3] three show ?thesis
      by (simp add: utf8_bytes_def)
  next
    case four
    have lt: "cp < 0x110000" using assms four by (simp add: is_scalar_def)
    have b: "cp div 262144 \<le> 4" "cp div 4096 mod 64 < 64" "cp div 64 mod 64 < 64" "cp mod 64 < 64"
      using lt by simp_all
    have lo: "16 \<le> cp div 4096 mod 64" if "cp div 262144 = 0"
    proof -
      from that have "cp < 262144" by (simp add: div_eq_0_iff)
      then have "cp div 4096 < 64" by simp
      moreover from four have "16 \<le> cp div 4096" by simp
      ultimately show ?thesis by simp
    qed
    have hi: "cp div 4096 mod 64 < 16" if "cp div 262144 = 4"
    proof -
      have "cp div 262144 = cp div 4096 div 64" by (simp add: div_mult2_eq[symmetric])
      with that have "cp div 4096 div 64 = 4" by simp
      then have "cp div 4096 = 4 * 64 + cp div 4096 mod 64"
        using div_mult_mod_eq[of "cp div 4096" 64] by simp
      moreover from lt have "cp div 4096 < 272" by simp
      ultimately show ?thesis by linarith
    qed
    from utf8_run_4[OF b lo hi, of bs, unfolded base64_4] four show ?thesis
      by (simp add: utf8_bytes_def)
  qed
qed

lemma utf8_run_encoded:
  "list_all is_scalar cps \<Longrightarrow> utf8_run utf8_initial (concat (map utf8_bytes cps)) = (cps, utf8_initial)"
proof (induction cps)
  case Nil
  then show ?case by simp
next
  case (Cons cp cps)
  then show ?case by (simp add: utf8_run_bytes del: utf8_run.simps)
qed

lemma utf8_bytes_range: "cp < 0x110000 \<Longrightarrow> list_all (\<lambda>b. b < 256) (utf8_bytes cp)"
proof -
  assume lt: "cp < 0x110000"
  have m: "cp mod 64 < 64" "cp div 64 mod 64 < 64" "cp div 4096 mod 64 < 64" by simp_all
  have d: "cp < 2048 \<Longrightarrow> cp div 64 < 32" "cp < 65536 \<Longrightarrow> cp div 4096 < 16" "cp div 262144 < 5"
    using lt by simp_all
  show ?thesis
    unfolding utf8_bytes_def using m d by (auto simp del: mod_less_divisor)
qed

lemma unat_bytes: "list_all (\<lambda>b. b < 256) bs \<Longrightarrow> map unat (map of_nat bs :: byte list) = bs"
  by (induction bs) (simp_all add: unat_of_nat take_bit_nat_eq_self)

lemma scalar_values_plain:
  "\<not> is_surrogate u \<Longrightarrow> scalar_values (u # us) = u # scalar_values us"
  by (cases us) (auto simp: is_lead_surrogate_def is_surrogate_def)

lemma scalar_values_units:
  "is_scalar cp \<Longrightarrow> scalar_values (utf16_units cp @ us) = cp # scalar_values us"
proof (cases "cp < 0x10000")
  case True
  assume "is_scalar cp"
  with True have "\<not> is_surrogate cp" by (auto simp: is_scalar_def is_surrogate_def)
  with True show ?thesis by (simp add: utf16_units_def scalar_values_plain)
next
  case False
  assume s: "is_scalar cp"
  then have lt: "cp < 0x110000" using False by (simp add: is_scalar_def)
  have d: "(cp - 65536) div 1024 < 1024" using lt by simp
  have r: "(cp - 65536) div 1024 * 1024 + (cp - 65536) mod 1024 = cp - 65536" by simp
  from False d r show ?thesis
    by (simp add: utf16_units_def is_lead_surrogate_def is_trail_surrogate_def)
qed

lemma scalar_values_utf16:
  "list_all is_scalar cps \<Longrightarrow> scalar_values (concat (map utf16_units cps)) = cps"
proof (induction cps)
  case Nil
  then show ?case by simp
next
  case (Cons cp cps)
  then show ?case by (simp add: scalar_values_units del: scalar_values.simps)
qed

lemma is_scalar_range: "is_scalar cp \<Longrightarrow> cp < 0x110000"
  by (auto simp: is_scalar_def)

lemma encoded_bytes_range:
  "list_all is_scalar cps \<Longrightarrow> list_all (\<lambda>b. b < 256) (concat (map utf8_bytes cps))"
  by (induction cps) (simp_all add: utf8_bytes_range is_scalar_range)

lemma decode_well_formed:
  assumes "list_all is_scalar cps" and "take 1 cps \<noteq> [0xFEFF]"
  shows "TextDecoder_decode_stream new_TextDecoder (utf8_encode cps) =
           (concat (map utf16_units cps), \<lparr> utf8 = utf8_initial, BOM_seen = (cps \<noteq> []) \<rparr>)"
proof -
  have "map unat (utf8_encode cps) = concat (map utf8_bytes cps)"
    unfolding utf8_encode_def by (rule unat_bytes[OF encoded_bytes_range[OF assms(1)]])
  then have r: "utf8_run utf8_initial (map unat (utf8_encode cps)) = (cps, utf8_initial)"
    by (simp add: utf8_run_encoded[OF assms(1)])
  have "TextDecoder_decode_stream new_TextDecoder (utf8_encode cps) =
          (concat (map utf16_units (case cps of [] \<Rightarrow> [] | c # cs \<Rightarrow> if c = 0xFEFF then cs else c # cs)),
           \<lparr> utf8 = utf8_initial, BOM_seen = (cps \<noteq> []) \<rparr>)"
    by (simp add: TextDecoder_decode_stream_def new_TextDecoder_def r)
  with assms(2) show ?thesis
    by (cases cps) simp_all
qed

lemma encode_well_formed:
  "list_all is_scalar cps \<Longrightarrow> TextEncoder_encode (concat (map utf16_units cps)) = utf8_encode cps"
  by (simp add: TextEncoder_encode_def utf8_encode_def scalar_values_utf16)

text \<open>
  Claim C1, amended. When the chunk that the handler receives is well-formed UTF-8 that
  does not start with a byte order mark, and the decoded text does not parse, the bytes
  that the filter writes are the bytes of the chunk: a body of one chunk reaches the page
  unchanged, and so does a longer body when the rest passes through.
\<close>

theorem unparseable_passes_through:
  assumes "url rd \<notin> set NOT_INTERESTING_URLS"
    and "list_all is_scalar cps" and "take 1 cps \<noteq> [0xFEFF]"
    and "JSON_parse ops (fst (TextDecoder_decode_stream new_TextDecoder (utf8_encode cps))) = Inl e"
  shows "written (request_trace ops rd (utf8_encode cps # rest)) = utf8_encode cps \<and>
         delivered sem ops rd [utf8_encode cps] = utf8_encode cps \<and>
         delivered RestPassesThrough ops rd (utf8_encode cps # rest) = concat (utf8_encode cps # rest)"
proof -
  note d = decode_well_formed[OF assms(2,3)]
  from assms(4) have p: "JSON_parse ops (concat (map utf16_units cps)) = Inl e"
    by (simp add: d)
  have w: "written (trace (ondata ops rd \<lparr> decoder = new_TextDecoder, connected = True,
                                    trace = [FilterOpen (requestId rd)] \<rparr> (utf8_encode cps))) = utf8_encode cps"
    by (simp add: ondata_def d p encode_well_formed[OF assms(2)])
  show ?thesis
    by (cases sem) (simp_all add: delivered_intercepted[OF assms(1)] trace_intercepted[OF assms(1)] w)
qed

text \<open>The theorem of C1 at the companies URL for an HTML error page.\<close>

theorem unparseable_passes_through_witness:
  \<open>url \<lparr> requestId = 1, url = js ''https://api.factorialhr.com/companies'' \<rparr> \<notin> set NOT_INTERESTING_URLS \<and>
   list_all is_scalar (js ''<html>Bad Gateway</html>'') \<and>
   take 1 (js ''<html>Bad Gateway</html>'') \<noteq> [0xFEFF] \<and>
   JSON_parse int_ops (fst (TextDecoder_decode_stream new_TextDecoder (utf8_encode (js ''<html>Bad Gateway</html>'')))) = Inl SyntaxError \<and>
   utf8_encode (js ''<html>Bad Gateway</html>'') = ascii ''<html>Bad Gateway</html>'' \<and>
   written (request_trace int_ops \<lparr> requestId = 1, url = js ''https://api.factorialhr.com/companies'' \<rparr>
      [ascii ''<html>Bad Gateway</html>'', ascii ''tail'']) = ascii ''<html>Bad Gateway</html>'' \<and>
   delivered RestDropped int_ops \<lparr> requestId = 1, url = js ''https://api.factorialhr.com/companies'' \<rparr>
      [ascii ''<html>Bad Gateway</html>''] = ascii ''<html>Bad Gateway</html>'' \<and>
   delivered RestPassesThrough int_ops \<lparr> requestId = 1, url = js ''https://api.factorialhr.com/companies'' \<rparr>
      [ascii ''<html>Bad Gateway</html>'', ascii ''tail''] = ascii ''<html>Bad Gateway</html>tail''\<close>
proof -
  have a: "url \<lparr> requestId = 1, url = js ''https://api.factorialhr.com/companies'' \<rparr> \<notin> set NOT_INTERESTING_URLS"
    by (simp add: companies_not_ignored)
  have b: "list_all is_scalar (js ''<html>Bad Gateway</html>'')"
    by (simp add: js_def is_scalar_def)
  have c: "take 1 (js ''<html>Bad Gateway</html>'') \<noteq> [0xFEFF]"
    by (simp add: js_def)
  have u: "utf8_encode (js ''<html>Bad Gateway</html>'') = ascii ''<html>Bad Gateway</html>''"
    by (simp add: utf8_encode_def js_def ascii_def utf8_bytes_def)
  have d: "JSON_parse int_ops (fst (TextDecoder_decode_stream new_TextDecoder (utf8_encode (js ''<html>Bad Gateway</html>'')))) = Inl SyntaxError"
    by (simp add: decode_well_formed[OF b c]) (simp add: js_def utf16_units_def parse_defs)
  show ?thesis
    using a b c d u unparseable_passes_through[OF a b c d, of "[ascii ''tail'']" RestDropped]
    by (simp add: ascii_def)
qed

text \<open>
  The decoder emits scalar values only, whatever the bytes: the text it returns is
  well-formed UTF-16, its re-encoding is well-formed UTF-8, and decoding that gives the
  text back unless it starts with a byte order mark, which no JSON text does.
\<close>

lemma mod_sub: "m * q \<le> b \<Longrightarrow> b < m * q + m \<Longrightarrow> b mod m = b - m * (q::nat)"
proof -
  assume a: "m * q \<le> b" "b < m * q + m"
  then have "b = m * q + (b - m * q)" by simp
  then have "b mod m = (m * q + (b - m * q)) mod m" by simp
  also have "\<dots> = b - m * q" using a by (intro split_mod) simp
  finally show ?thesis .
qed

lemma decoder_ok_initial: "decoder_ok utf8_initial"
  by (simp add: decoder_ok_def utf8_initial_def)

lemma utf8_lead_ok:
  assumes "utf8_lead b = (out, d')"
  shows "list_all is_scalar out \<and> decoder_ok d'"
proof -
  consider (a) "b \<le> 0x7F" | (b) "0xC2 \<le> b" "b \<le> 0xDF" | (c) "0xE0 \<le> b" "b \<le> 0xEF"
    | (d) "0xF0 \<le> b" "b \<le> 0xF4" | (e) "0x7F < b" "b < 0xC2 \<or> 0xF4 < b"
    by linarith
  then show ?thesis
  proof cases
    case a
    with assms have "out = [b]" "d' = utf8_initial" by (simp_all add: utf8_lead_def)
    with a show ?thesis by (simp add: is_scalar_def decoder_ok_initial)
  next
    case b
    have "b mod 32 < 32" by simp
    then have m: "b mod 32 < 864" by linarith
    from b assms have "out = []"
      "d' = \<lparr> bytes_needed = 1, code_point = b mod 32, lower_boundary = 0x80, upper_boundary = 0xBF \<rparr>"
      by (simp_all add: utf8_lead_def)
    with m show ?thesis by (simp add: decoder_ok_def)
  next
    case c
    have m: "b mod 16 = b - 224" using c mod_sub[of 16 14 b] by simp
    from c assms have o: "out = []" and d: "d' = \<lparr> bytes_needed = 2, code_point = b mod 16,
               lower_boundary = (if b = 0xE0 then 0xA0 else 0x80),
               upper_boundary = (if b = 0xED then 0x9F else 0xBF) \<rparr>"
      by (simp_all add: utf8_lead_def)
    have "b - 224 < 13 \<or> b = 0xED \<or> 14 \<le> b - 224 \<and> b - 224 < 272" using c by linarith
    moreover have "b = 0xED \<Longrightarrow> b - 224 = 13" by simp
    ultimately show ?thesis unfolding o d m by (auto simp: decoder_ok_def)
  next
    case d
    have m: "b mod 8 = b - 240" using d mod_sub[of 8 30 b] by simp
    from d assms have o: "out = []" and d': "d' = \<lparr> bytes_needed = 3, code_point = b mod 8,
               lower_boundary = (if b = 0xF0 then 0x90 else 0x80),
               upper_boundary = (if b = 0xF4 then 0x8F else 0xBF) \<rparr>"
      by (simp_all add: utf8_lead_def)
    from d consider "b = 240" | "b = 244" | "241 \<le> b" "b \<le> 243" by linarith
    then show ?thesis
    proof cases
      case 1
      with o d' m show ?thesis by (simp add: decoder_ok_def)
    next
      case 2
      with o d' m show ?thesis by (simp add: decoder_ok_def)
    next
      case 3
      then have "1 \<le> b - 240" "b - 240 \<le> 3" "b \<noteq> 240" "b \<noteq> 244" by linarith+
      with o d' m show ?thesis by (simp add: decoder_ok_def)
    qed
  next
    case e
    with assms have "out = [0xFFFD]" "d' = utf8_initial" by (auto simp: utf8_lead_def)
    then show ?thesis by (simp add: is_scalar_def decoder_ok_initial)
  qed
qed

lemma utf8_step_ok:
  assumes "decoder_ok d" and "utf8_step d b = (out, d')"
  shows "list_all is_scalar out \<and> decoder_ok d'"
proof (cases "bytes_needed d = 0")
  case True
  with assms(2) show ?thesis by (simp add: utf8_step_def utf8_lead_ok)
next
  case n: False
  show ?thesis
  proof (cases "b < lower_boundary d \<or> upper_boundary d < b")
    case True
    obtain o1 d1 where l: "utf8_lead b = (o1, d1)" by (cases "utf8_lead b")
    from assms(2) n True l have "out = 0xFFFD # o1" "d' = d1" by (simp_all add: utf8_step_def)
    with utf8_lead_ok[OF l] show ?thesis by (simp add: is_scalar_def)
  next
    case False
    from assms(1) False have r: "128 \<le> b" "b \<le> 191" "lower_boundary d \<le> b" "b \<le> upper_boundary d"
      by (simp_all add: decoder_ok_def)
    have m: "b mod 64 = b - 128" using r mod_sub[of 64 2 b] by simp
    define c where "c = code_point d"
    define x where "x = b - 128"
    have x: "x < 64" using r by (simp add: x_def)
    from assms(1) n consider (1) "bytes_needed d = 1" | (2) "bytes_needed d = 2" | (3) "bytes_needed d = 3"
      by (auto simp: decoder_ok_def)
    then show ?thesis
    proof cases
      case 1
      with assms(2) False m have o: "out = [c * 64 + x]" and d': "d' = utf8_initial"
        by (simp_all add: utf8_step_def Let_def c_def x_def)
      from assms(1) 1 have "c < 0x360 \<or> 0x380 \<le> c \<and> c < 0x4400"
        by (simp add: decoder_ok_def c_def)
      with x have "c * 64 + x < 0xD800 \<or> 0xE000 \<le> c * 64 + x \<and> c * 64 + x < 0x110000"
        by linarith
      then show ?thesis by (simp add: o d' is_scalar_def decoder_ok_initial)
    next
      case 2
      with assms(2) False m have o: "out = []"
        and d': "d' = \<lparr> bytes_needed = 1, code_point = c * 64 + x, lower_boundary = 0x80, upper_boundary = 0xBF \<rparr>"
        by (simp_all add: utf8_step_def Let_def c_def x_def)
      from assms(1) 2 have "c < 13 \<or> c = 13 \<and> upper_boundary d \<le> 0x9F \<or> 14 \<le> c \<and> c < 0x110"
        by (simp add: decoder_ok_def c_def)
      moreover have "upper_boundary d \<le> 0x9F \<Longrightarrow> x < 32" using r by (simp add: x_def)
      ultimately have "c * 64 + x < 0x360 \<or> 0x380 \<le> c * 64 + x \<and> c * 64 + x < 0x4400"
        using x by linarith
      then show ?thesis by (simp add: o d' decoder_ok_def)
    next
      case 3
      with assms(2) False m have o: "out = []"
        and d': "d' = \<lparr> bytes_needed = 2, code_point = c * 64 + x, lower_boundary = 0x80, upper_boundary = 0xBF \<rparr>"
        by (simp_all add: utf8_step_def Let_def c_def x_def)
      from assms(1) 3 have "c = 0 \<and> 0x90 \<le> lower_boundary d \<or> 1 \<le> c \<and> c \<le> 3 \<or> c = 4 \<and> upper_boundary d \<le> 0x8F"
        by (simp add: decoder_ok_def c_def)
      moreover have "upper_boundary d \<le> 0x8F \<Longrightarrow> x < 16" using r by (simp add: x_def)
      moreover have "0x90 \<le> lower_boundary d \<Longrightarrow> 16 \<le> x" using r by (simp add: x_def)
      ultimately have "14 \<le> c * 64 + x \<and> c * 64 + x < 0x110"
        using x by linarith
      then show ?thesis by (simp add: o d' decoder_ok_def)
    qed
  qed
qed

lemma utf8_run_ok:
  "decoder_ok d \<Longrightarrow> utf8_run d bs = (out, d') \<Longrightarrow> list_all is_scalar out \<and> decoder_ok d'"
proof (induction bs arbitrary: d out d')
  case Nil
  then show ?case by simp
next
  case (Cons b bs)
  obtain o1 d1 where s: "utf8_step d b = (o1, d1)" by (cases "utf8_step d b")
  obtain o2 d2 where r: "utf8_run d1 bs = (o2, d2)" by (cases "utf8_run d1 bs")
  from utf8_step_ok[OF Cons.prems(1) s] have 1: "list_all is_scalar o1" "decoder_ok d1" by simp_all
  from Cons.IH[OF 1(2) r] have 2: "list_all is_scalar o2" "decoder_ok d2" by simp_all
  from Cons.prems(2) s r have "out = o1 @ o2" "d' = d2" by simp_all
  with 1 2 show ?case by simp
qed

lemma decoded_scalars:
  obtains cps where "list_all is_scalar cps"
    and "fst (TextDecoder_decode_stream new_TextDecoder data) = concat (map utf16_units cps)"
proof -
  obtain out d' where r: "utf8_run utf8_initial (map unat data) = (out, d')"
    by (cases "utf8_run utf8_initial (map unat data)")
  from utf8_run_ok[OF decoder_ok_initial r] have s: "list_all is_scalar out" by simp
  let ?c = "case out of [] \<Rightarrow> [] | c # cs \<Rightarrow> if c = 0xFEFF then cs else c # cs"
  have 1: "list_all is_scalar ?c" using s by (cases out) simp_all
  have 2: "fst (TextDecoder_decode_stream new_TextDecoder data) = concat (map utf16_units ?c)"
    by (simp add: TextDecoder_decode_stream_def new_TextDecoder_def r)
  from 1 2 that show thesis by blast
qed

lemma parse_BOM: "JSON_parse ops (0xFEFF # s) = Inl SyntaxError"
  by (simp add: JSON_parse_def is_ws_def is_digit_def)

lemma reencoded_parses:
  assumes "JSON_parse ops (fst (TextDecoder_decode_stream new_TextDecoder c)) = Inr v"
  shows "JSON_parse ops (fst (TextDecoder_decode_stream new_TextDecoder
            (TextEncoder_encode (fst (TextDecoder_decode_stream new_TextDecoder c))))) = Inr v"
proof -
  obtain cps where s: "list_all is_scalar cps"
    and t: "fst (TextDecoder_decode_stream new_TextDecoder c) = concat (map utf16_units cps)"
    by (rule decoded_scalars)
  have b: "take 1 cps \<noteq> [0xFEFF]"
  proof
    assume "take 1 cps = [0xFEFF]"
    then obtain cs where "cps = 0xFEFF # cs" by (cases cps) simp_all
    then have "concat (map utf16_units cps) = 0xFEFF # concat (map utf16_units cs)"
      by (simp add: utf16_units_def)
    with assms t show False by (simp add: parse_BOM)
  qed
  show ?thesis
    using assms by (simp add: t encode_well_formed[OF s] decode_well_formed[OF s b])
qed

text \<open>
  Claim C8 fails for the companies URL and the one-chunk body \<^verbatim>\<open>[null,"caf\xE9"]\<close>, whose
  byte \<^verbatim>\<open>E9\<close> is no UTF-8: the decoded text parses, \<^verbatim>\<open>mock_companies\<close> throws a
  \<^verbatim>\<open>TypeError\<close> on the \<^verbatim>\<open>null\<close> element, and the handler writes the decoded text
  re-encoded, with \<^verbatim>\<open>EF BF BD\<close> in the place of \<^verbatim>\<open>E9\<close>: not the response as the server
  sent it.
\<close>

theorem transform_exception_reencoded:
  \<open>url \<lparr> requestId = 1, url = js ''https://api.factorialhr.com/companies'' \<rparr> \<notin> set NOT_INTERESTING_URLS \<and>
   JSON_parse int_ops (fst (TextDecoder_decode_stream new_TextDecoder (ascii ''[null,"caf'' @ [0xE9] @ ascii ''"]'')))
     = Inr (JArr [JNull, JStr (js ''caf'' @ [0xFFFD])]) \<and>
   thrown (handle_mocking int_ops (js ''https://api.factorialhr.com/companies'') (JArr [JNull, JStr (js ''caf'' @ [0xFFFD])]))
     = Some TypeError \<and>
   delivered RestPassesThrough int_ops \<lparr> requestId = 1, url = js ''https://api.factorialhr.com/companies'' \<rparr>
      [ascii ''[null,"caf'' @ [0xE9] @ ascii ''"]'']
     = ascii ''[null,"caf'' @ [0xEF, 0xBF, 0xBD] @ ascii ''"]'' \<and>
   ascii ''[null,"caf'' @ [0xEF, 0xBF, 0xBD] @ ascii ''"]'' \<noteq> ascii ''[null,"caf'' @ [0xE9] @ ascii ''"]''\<close>
proof -
  define rd where "rd = \<lparr> requestId = 1, url = js ''https://api.factorialhr.com/companies'' \<rparr>"
  define chunk :: "byte list" where \<open>chunk = ascii ''[null,"caf'' @ [0xE9] @ ascii ''"]''\<close>
  define str where \<open>str = js ''[null,"caf'' @ [0xFFFD] @ js ''"]''\<close>
  define v :: "int json" where "v = JArr [JNull, JStr (js ''caf'' @ [0xFFFD])]"
  define out :: "byte list" where \<open>out = ascii ''[null,"caf'' @ [0xEF, 0xBF, 0xBD] @ ascii ''"]''\<close>
  have a: "url rd \<notin> set NOT_INTERESTING_URLS"
    by (simp add: rd_def companies_not_ignored)
  have d: "TextDecoder_decode_stream new_TextDecoder chunk = (str, \<lparr> utf8 = utf8_initial, BOM_seen = True \<rparr>)"
    by (simp add: chunk_def str_def ascii_def js_def codec_defs)
  have p: "JSON_parse int_ops str = Inr v"
    by (simp add: str_def v_def js_def parse_defs)
  have h: "handle_mocking int_ops (js ''https://api.factorialhr.com/companies'') v
      = \<lparr> logged = [LogStr (js ''Companies original response:''), LogVal v], mem = v, thrown = Some TypeError \<rparr>"
    by (simp add: v_def transform_defs)
  have e: "TextEncoder_encode str = out"
    by (simp add: str_def out_def ascii_def js_def codec_defs)
  have u: "url rd = js ''https://api.factorialhr.com/companies''" by (simp add: rd_def)
  have dl: "delivered RestPassesThrough int_ops rd [chunk] = out"
    by (simp add: delivered_intercepted[OF a] ondata_def d p u h e)
  have ne: "out \<noteq> chunk"
    by (simp add: out_def chunk_def ascii_def)
  from d p have p': "JSON_parse int_ops (fst (TextDecoder_decode_stream new_TextDecoder chunk)) = Inr v" by simp
  from h have t: "thrown (handle_mocking int_ops (js ''https://api.factorialhr.com/companies'') v) = Some TypeError" by simp
  from a p' t dl ne show ?thesis
    unfolding rd_def chunk_def v_def out_def by blast
qed

text \<open>
  Claim C8, amended. When the first chunk decodes to a text that parses and
  \<^verbatim>\<open>handle_mocking\<close> throws on the parsed value, the handler still writes once and
  disconnects: what it writes is the whole decoded text, re-encoded. A body of one chunk
  is delivered as bytes that decode and parse to the very value that the received body
  parsed to. When the chunk is well-formed UTF-8 without a byte order mark, the body of
  one chunk is delivered as the very bytes received, and so is a longer body when the rest
  passes through.
\<close>

theorem transform_exception_contained:
  assumes "url rd \<notin> set NOT_INTERESTING_URLS"
    and "JSON_parse ops (fst (TextDecoder_decode_stream new_TextDecoder c)) = Inr v"
    and "thrown (handle_mocking ops (url rd) v) = Some e"
  shows "request_trace ops rd (c # cs) =
           [FilterOpen (requestId rd), CallDecode, CallParse, CallHandleMocking]
           @ map ConsoleLog (logged (handle_mocking ops (url rd) v))
           @ [FilterWrite (TextEncoder_encode (fst (TextDecoder_decode_stream new_TextDecoder c))),
              FilterDisconnect] \<and>
         delivered sem ops rd (c # cs) =
           TextEncoder_encode (fst (TextDecoder_decode_stream new_TextDecoder c))
           @ (case sem of RestPassesThrough \<Rightarrow> concat cs | RestDropped \<Rightarrow> []) \<and>
         JSON_parse ops (fst (TextDecoder_decode_stream new_TextDecoder (delivered sem ops rd [c]))) = Inr v \<and>
         (c = utf8_encode cps \<longrightarrow> list_all is_scalar cps \<longrightarrow> take 1 cps \<noteq> [0xFEFF] \<longrightarrow>
            delivered sem ops rd [c] = c \<and>
            delivered RestPassesThrough ops rd (c # cs) = concat (c # cs))"
proof -
  obtain str d where dd: "TextDecoder_decode_stream new_TextDecoder c = (str, d)"
    by (cases "TextDecoder_decode_stream new_TextDecoder c")
  from assms(2) dd have p: "JSON_parse ops str = Inr v" by simp
  have t: "trace (ondata ops rd \<lparr> decoder = new_TextDecoder, connected = True,
                                    trace = [FilterOpen (requestId rd)] \<rparr> c) =
           [FilterOpen (requestId rd), CallDecode, CallParse, CallHandleMocking]
           @ map ConsoleLog (logged (handle_mocking ops (url rd) v))
           @ [FilterWrite (TextEncoder_encode str), FilterDisconnect]"
    by (simp add: ondata_def dd p assms(3))
  have w: "written (map ConsoleLog l @ es) = written es" for l :: "'a log_entry list" and es
    by (induction l) simp_all
  have del: "delivered s ops rd (c # xs) =
               TextEncoder_encode str @ (case s of RestPassesThrough \<Rightarrow> concat xs | RestDropped \<Rightarrow> [])" for s xs
    by (simp add: delivered_intercepted[OF assms(1)] t w)
  have one: "delivered sem ops rd [c] = TextEncoder_encode str"
    by (cases sem) (simp_all add: del)
  have wf: "TextEncoder_encode str = c"
    if "c = utf8_encode cps" "list_all is_scalar cps" "take 1 cps \<noteq> [0xFEFF]"
    using dd decode_well_formed[OF that(2,3)] encode_well_formed[OF that(2)] that(1) by simp
  have tr: "request_trace ops rd (c # cs) =
           [FilterOpen (requestId rd), CallDecode, CallParse, CallHandleMocking]
           @ map ConsoleLog (logged (handle_mocking ops (url rd) v))
           @ [FilterWrite (TextEncoder_encode (fst (TextDecoder_decode_stream new_TextDecoder c))),
              FilterDisconnect]"
    by (simp add: trace_intercepted[OF assms(1)] t dd)
  have del': "delivered sem ops rd (c # cs) =
           TextEncoder_encode (fst (TextDecoder_decode_stream new_TextDecoder c))
           @ (case sem of RestPassesThrough \<Rightarrow> concat cs | RestDropped \<Rightarrow> [])"
    by (simp add: del dd)
  have again: "JSON_parse ops (fst (TextDecoder_decode_stream new_TextDecoder (delivered sem ops rd [c]))) = Inr v"
    using reencoded_parses[OF assms(2)] by (simp add: one dd)
  have fourth: "c = utf8_encode cps \<longrightarrow> list_all is_scalar cps \<longrightarrow> take 1 cps \<noteq> [0xFEFF] \<longrightarrow>
            delivered sem ops rd [c] = c \<and>
            delivered RestPassesThrough ops rd (c # cs) = concat (c # cs)"
  proof (intro impI)
    assume h: "c = utf8_encode cps" "list_all is_scalar cps" "take 1 cps \<noteq> [0xFEFF]"
    from wf[OF h] have e: "TextEncoder_encode str = c" .
    have "delivered sem ops rd [c] = c" by (simp only: one e)
    moreover have "delivered RestPassesThrough ops rd (c # cs) = concat (c # cs)"
      by (simp add: del e)
    ultimately show "delivered sem ops rd [c] = c \<and>
            delivered RestPassesThrough ops rd (c # cs) = concat (c # cs)" by blast
  qed
  from tr del' again fourth show ?thesis by blast
qed

text \<open>
  The theorem of C8 at the companies URL for the body \<^verbatim>\<open>[null]\<close>, on which
  \<^verbatim>\<open>mock_companies\<close> throws a \<^verbatim>\<open>TypeError\<close>.
\<close>

theorem transform_exception_contained_witness:
  \<open>url \<lparr> requestId = 1, url = js ''https://api.factorialhr.com/companies'' \<rparr> \<notin> set NOT_INTERESTING_URLS \<and>
   JSON_parse int_ops (fst (TextDecoder_decode_stream new_TextDecoder (ascii ''[null]''))) = Inr (JArr [JNull]) \<and>
   thrown (handle_mocking int_ops (url \<lparr> requestId = 1, url = js ''https://api.factorialhr.com/companies'' \<rparr>) (JArr [JNull]))
     = Some TypeError \<and>
   request_trace int_ops \<lparr> requestId = 1, url = js ''https://api.factorialhr.com/companies'' \<rparr> [ascii ''[null]'', ascii '' '']
     = [FilterOpen 1, CallDecode, CallParse, CallHandleMocking,
        ConsoleLog (LogStr (js ''Companies original response:'')), ConsoleLog (LogVal (JArr [JNull])),
        FilterWrite (ascii ''[null]''), FilterDisconnect] \<and>
   delivered RestDropped int_ops \<lparr> requestId = 1, url = js ''https://api.factorialhr.com/companies'' \<rparr>
      [ascii ''[null]'', ascii '' ''] = ascii ''[null]'' \<and>
   JSON_parse int_ops (fst (TextDecoder_decode_stream new_TextDecoder
      (delivered RestDropped int_ops \<lparr> requestId = 1, url = js ''https://api.factorialhr.com/companies'' \<rparr> [ascii ''[null]''])))
     = Inr (JArr [JNull]) \<and>
   ascii ''[null]'' = utf8_encode (js ''[null]'') \<and> list_all is_scalar (js ''[null]'') \<and>
   take 1 (js ''[null]'') \<noteq> [0xFEFF] \<and>
   delivered RestDropped int_ops \<lparr> requestId = 1, url = js ''https://api.factorialhr.com/companies'' \<rparr> [ascii ''[null]'']
     = ascii ''[null]'' \<and>
   delivered RestPassesThrough int_ops \<lparr> requestId = 1, url = js ''https://api.factorialhr.com/companies'' \<rparr>
      [ascii ''[null]'', ascii '' ''] = ascii ''[null] ''\<close>
proof -
  define rd where "rd = \<lparr> requestId = 1, url = js ''https://api.factorialhr.com/companies'' \<rparr>"
  define c :: "byte list" where "c = ascii ''[null]''"
  define sp :: "byte list" where "sp = ascii '' ''"
  have a: "url rd \<notin> set NOT_INTERESTING_URLS"
    by (simp add: rd_def companies_not_ignored)
  have d: "TextDecoder_decode_stream new_TextDecoder c = (js ''[null]'', \<lparr> utf8 = utf8_initial, BOM_seen = True \<rparr>)"
    by (simp add: c_def ascii_def js_def codec_defs)
  have p: "JSON_parse int_ops (fst (TextDecoder_decode_stream new_TextDecoder c)) = Inr (JArr [JNull])"
    by (simp add: d) (simp add: js_def parse_defs)
  have h: "handle_mocking int_ops (js ''https://api.factorialhr.com/companies'') (JArr [JNull])
      = \<lparr> logged = [LogStr (js ''Companies original response:''), LogVal (JArr [JNull])], mem = JArr [JNull], thrown = Some TypeError \<rparr>"
    by (simp add: transform_defs)
  have ur: "url rd = js ''https://api.factorialhr.com/companies''" by (simp add: rd_def)
  from h have t: "thrown (handle_mocking int_ops (url rd) (JArr [JNull])) = Some TypeError"
    by (simp add: ur)
  have e: "TextEncoder_encode (js ''[null]'') = c"
    by (simp add: c_def ascii_def js_def codec_defs)
  have u: "c = utf8_encode (js ''[null]'')"
    by (simp add: c_def utf8_encode_def js_def ascii_def utf8_bytes_def)
  have s: "list_all is_scalar (js ''[null]'')" by (simp add: js_def is_scalar_def)
  have b: "take 1 (js ''[null]'') \<noteq> [0xFEFF]" by (simp add: js_def)
  note r = transform_exception_contained[OF a p t, of "[sp]" RestDropped "js ''[null]''"]
  from r have r1: "request_trace int_ops rd [c, sp]
     = [FilterOpen 1, CallDecode, CallParse, CallHandleMocking,
        ConsoleLog (LogStr (js ''Companies original response:'')), ConsoleLog (LogVal (JArr [JNull])),
        FilterWrite c, FilterDisconnect]"
    by (simp add: ur h d e rd_def)
  from r have r2: "delivered RestDropped int_ops rd [c, sp] = c"
    by (simp add: d e)
  from r have r3: "JSON_parse int_ops (fst (TextDecoder_decode_stream new_TextDecoder (delivered RestDropped int_ops rd [c])))
     = Inr (JArr [JNull])"
    by blast
  from r u s b have r4: "delivered RestDropped int_ops rd [c] = c"
    and r5: "delivered RestPassesThrough int_ops rd [c, sp] = concat [c, sp]"
    by blast+
  have cc: "concat [c, sp] = ascii ''[null] ''" by (simp add: c_def sp_def ascii_def)
  from a p t r1 r2 r3 u s b r4 r5 cc show ?thesis
    unfolding rd_def c_def sp_def by (simp only: simp_thms)
qed


subsection \<open>A serialised value parses back\<close>












































subsection \<open>\<^verbatim>\<open>JSON.parse\<close> returns well-formed values\<close>






















subsection \<open>What the transforms change\<close>






































end
